theory Spec2Isabelle
  imports Complex_Main "HOL-Library.Multiset"
begin

section \<open>Data model\<close>

text \<open>
  The overlay component (\<^verbatim>\<open>HeatmapOverlay\<close>) receives a list of hotspots and a
  visualisation mode, resolves the natural size of the image, and draws on a canvas
  through the Canvas 2D interface.

  JavaScript numbers are idealised: \<^verbatim>\<open>id\<close> is an integer, coordinates, intensities
  and lengths are real numbers (no NaN, no rounding). The fields of a hotspot carry the
  prefix \<open>spot_\<close> because \<open>id\<close>, \<open>x\<close> and \<open>y\<close> are taken in HOL.
\<close>

datatype VisualizationMode = Heatmap | Fogmap | Path

record Hotspot =
  spot_id :: int
  spot_x :: real
  spot_y :: real
  spot_intensity :: real
  spot_label :: "string option"

text \<open>The state \<^verbatim>\<open>dimensions\<close> of the component, and what an image element reports.\<close>

record dims =
  width :: nat
  height :: nat

record HTMLImageElement =
  complete :: bool
  naturalWidth :: nat
  naturalHeight :: nat

section \<open>Image metrics resolver\<close>

text \<open>
  \<^verbatim>\<open>onImageLoad\<close>: the handler of the image's load event. \<^verbatim>\<open>setDimensions\<close> is the
  only effect, so the handler maps the old state to the new one.
\<close>

definition onImageLoad :: "HTMLImageElement \<Rightarrow> dims option \<Rightarrow> dims option" where
  "onImageLoad currentTarget dimensions =
     (if naturalWidth currentTarget > 0 \<and> naturalHeight currentTarget > 0
      then Some \<lparr>width = naturalWidth currentTarget, height = naturalHeight currentTarget\<rparr>
      else dimensions)"

text \<open>
  The effect that runs when \<^verbatim>\<open>imageSrc\<close> changes and inspects an image that is
  already decoded. \<^verbatim>\<open>imgRef.current\<close> may be null.
\<close>

definition cachedImageEffect :: "HTMLImageElement option \<Rightarrow> dims option \<Rightarrow> dims option" where
  "cachedImageEffect imgRef dimensions =
     (case imgRef of
        None \<Rightarrow> dimensions
      | Some current \<Rightarrow>
          if complete current \<and> naturalWidth current > 0
          then Some \<lparr>width = naturalWidth current, height = naturalHeight current\<rparr>
          else dimensions)"

section \<open>Canvas 2D interface\<close>

text \<open>
  The drawing state of a 2D context, restricted to the attributes the component touches,
  and the bitmap as the list of drawing operations executed since it was last entirely
  transparent. Every operation stores the drawing state it was executed with (the current
  path included).
\<close>

datatype CompositeOperation = source_over | screen | destination_out

datatype css_colour = rgba nat nat nat real

datatype CanvasGradient =
  RadialGradient real real real real real real "(real \<times> css_colour) list"

datatype style = Colour css_colour | Gradient CanvasGradient

datatype font = Font bool real string

datatype textAlign = align_start | align_center

datatype textBaseline = alphabetic | middle

datatype path_cmd =
  MoveTo real real
| LineTo real real
| Arc real real real real real

record CanvasRenderingContext2D =
  globalCompositeOperation :: CompositeOperation
  fillStyle :: style
  strokeStyle :: style
  lineWidth :: real
  lineDash :: "real list"
  shadowColor :: css_colour
  shadowBlur :: real
  ctx_font :: font
  ctx_textAlign :: textAlign
  ctx_textBaseline :: textBaseline
  subpaths :: "path_cmd list"

datatype draw =
  ClearRect real real real real
| FillRect CanvasRenderingContext2D real real real real
| Fill CanvasRenderingContext2D
| Stroke CanvasRenderingContext2D
| FillText CanvasRenderingContext2D int real real

record canvas =
  canvas_width :: nat
  canvas_height :: nat
  supports2d :: bool
  ctx :: CanvasRenderingContext2D
  drawn :: "draw list"

text \<open>The initial drawing state of a 2D context (HTML Standard).\<close>

definition default_context :: CanvasRenderingContext2D where
  "default_context =
     \<lparr>globalCompositeOperation = source_over,
      fillStyle = Colour (rgba 0 0 0 1),
      strokeStyle = Colour (rgba 0 0 0 1),
      lineWidth = 1,
      lineDash = [],
      shadowColor = rgba 0 0 0 0,
      shadowBlur = 0,
      ctx_font = Font False 10 ''sans-serif'',
      ctx_textAlign = align_start,
      ctx_textBaseline = alphabetic,
      subpaths = []\<rparr>"

text \<open>
  Assigning \<^verbatim>\<open>canvas.width\<close> or \<^verbatim>\<open>canvas.height\<close> sets the bitmap dimensions: the
  bitmap becomes transparent black and the context returns to its initial state, also
  when the value does not change (HTML Standard, "set bitmap dimensions").
\<close>

definition set_canvas_width :: "nat \<Rightarrow> canvas \<Rightarrow> canvas" where
  "set_canvas_width v c = c\<lparr>canvas_width := v, ctx := default_context, drawn := []\<rparr>"

definition set_canvas_height :: "nat \<Rightarrow> canvas \<Rightarrow> canvas" where
  "set_canvas_height v c = c\<lparr>canvas_height := v, ctx := default_context, drawn := []\<rparr>"

text \<open>
  \<^verbatim>\<open>clearRect\<close> makes the rectangle transparent. A rectangle that covers the bitmap
  leaves nothing of the earlier operations; a smaller one is recorded.
\<close>

definition clearRect :: "real \<Rightarrow> real \<Rightarrow> real \<Rightarrow> real \<Rightarrow> canvas \<Rightarrow> canvas" where
  "clearRect x y w h c =
     (if x \<le> 0 \<and> y \<le> 0 \<and> real (canvas_width c) \<le> x + w \<and> real (canvas_height c) \<le> y + h
      then c\<lparr>drawn := []\<rparr>
      else c\<lparr>drawn := drawn c @ [ClearRect x y w h]\<rparr>)"

definition set_globalCompositeOperation :: "CompositeOperation \<Rightarrow> canvas \<Rightarrow> canvas" where
  "set_globalCompositeOperation v c = c\<lparr>ctx := (ctx c)\<lparr>globalCompositeOperation := v\<rparr>\<rparr>"

definition set_fillStyle :: "style \<Rightarrow> canvas \<Rightarrow> canvas" where
  "set_fillStyle v c = c\<lparr>ctx := (ctx c)\<lparr>fillStyle := v\<rparr>\<rparr>"

definition set_strokeStyle :: "style \<Rightarrow> canvas \<Rightarrow> canvas" where
  "set_strokeStyle v c = c\<lparr>ctx := (ctx c)\<lparr>strokeStyle := v\<rparr>\<rparr>"

definition set_lineWidth :: "real \<Rightarrow> canvas \<Rightarrow> canvas" where
  "set_lineWidth v c = c\<lparr>ctx := (ctx c)\<lparr>lineWidth := v\<rparr>\<rparr>"

definition setLineDash :: "real list \<Rightarrow> canvas \<Rightarrow> canvas" where
  "setLineDash v c = c\<lparr>ctx := (ctx c)\<lparr>lineDash := v\<rparr>\<rparr>"

definition set_shadowColor :: "css_colour \<Rightarrow> canvas \<Rightarrow> canvas" where
  "set_shadowColor v c = c\<lparr>ctx := (ctx c)\<lparr>shadowColor := v\<rparr>\<rparr>"

definition set_shadowBlur :: "real \<Rightarrow> canvas \<Rightarrow> canvas" where
  "set_shadowBlur v c = c\<lparr>ctx := (ctx c)\<lparr>shadowBlur := v\<rparr>\<rparr>"

definition set_font :: "font \<Rightarrow> canvas \<Rightarrow> canvas" where
  "set_font v c = c\<lparr>ctx := (ctx c)\<lparr>ctx_font := v\<rparr>\<rparr>"

definition set_textAlign :: "textAlign \<Rightarrow> canvas \<Rightarrow> canvas" where
  "set_textAlign v c = c\<lparr>ctx := (ctx c)\<lparr>ctx_textAlign := v\<rparr>\<rparr>"

definition set_textBaseline :: "textBaseline \<Rightarrow> canvas \<Rightarrow> canvas" where
  "set_textBaseline v c = c\<lparr>ctx := (ctx c)\<lparr>ctx_textBaseline := v\<rparr>\<rparr>"

definition beginPath :: "canvas \<Rightarrow> canvas" where
  "beginPath c = c\<lparr>ctx := (ctx c)\<lparr>subpaths := []\<rparr>\<rparr>"

definition moveTo :: "real \<Rightarrow> real \<Rightarrow> canvas \<Rightarrow> canvas" where
  "moveTo x y c = c\<lparr>ctx := (ctx c)\<lparr>subpaths := subpaths (ctx c) @ [MoveTo x y]\<rparr>\<rparr>"

text \<open>\<^verbatim>\<open>lineTo\<close> on a path without subpaths only starts one at the point.\<close>

definition lineTo :: "real \<Rightarrow> real \<Rightarrow> canvas \<Rightarrow> canvas" where
  "lineTo x y c =
     c\<lparr>ctx := (ctx c)\<lparr>subpaths := subpaths (ctx c) @
        [if subpaths (ctx c) = [] then MoveTo x y else LineTo x y]\<rparr>\<rparr>"

definition arc :: "real \<Rightarrow> real \<Rightarrow> real \<Rightarrow> real \<Rightarrow> real \<Rightarrow> canvas \<Rightarrow> canvas" where
  "arc x y radius startAngle endAngle c =
     c\<lparr>ctx := (ctx c)\<lparr>subpaths := subpaths (ctx c) @ [Arc x y radius startAngle endAngle]\<rparr>\<rparr>"

definition fill :: "canvas \<Rightarrow> canvas" where
  "fill c = c\<lparr>drawn := drawn c @ [Fill (ctx c)]\<rparr>"

definition stroke :: "canvas \<Rightarrow> canvas" where
  "stroke c = c\<lparr>drawn := drawn c @ [Stroke (ctx c)]\<rparr>"

definition fillRect :: "real \<Rightarrow> real \<Rightarrow> real \<Rightarrow> real \<Rightarrow> canvas \<Rightarrow> canvas" where
  "fillRect x y w h c = c\<lparr>drawn := drawn c @ [FillRect (ctx c) x y w h]\<rparr>"

text \<open>
  \<^verbatim>\<open>fillText\<close> is only called with \<^verbatim>\<open>spot.id.toString()\<close>; the operation stores
  the number whose decimal representation is drawn.
\<close>

definition fillText :: "int \<Rightarrow> real \<Rightarrow> real \<Rightarrow> canvas \<Rightarrow> canvas" where
  "fillText n x y c = c\<lparr>drawn := drawn c @ [FillText (ctx c) n x y]\<rparr>"

definition createRadialGradient ::
  "real \<Rightarrow> real \<Rightarrow> real \<Rightarrow> real \<Rightarrow> real \<Rightarrow> real \<Rightarrow> CanvasGradient" where
  "createRadialGradient x0 y0 r0 x1 y1 r1 = RadialGradient x0 y0 r0 x1 y1 r1 []"

fun addColorStop :: "real \<Rightarrow> css_colour \<Rightarrow> CanvasGradient \<Rightarrow> CanvasGradient" where
  "addColorStop offset colour (RadialGradient x0 y0 r0 x1 y1 r1 stops) =
     RadialGradient x0 y0 r0 x1 y1 r1 (stops @ [(offset, colour)])"

section \<open>Overlay rasterizer\<close>

text \<open>The body of \<^verbatim>\<open>sortedHotspots.forEach\<close> in heatmap mode.\<close>

definition heatmap_spot :: "Hotspot \<Rightarrow> canvas \<Rightarrow> canvas" where
  "heatmap_spot spot canvas =
     (let x = (spot_x spot / 100) * real (canvas_width canvas);
          y = (spot_y spot / 100) * real (canvas_height canvas);
          radius = real (min (canvas_width canvas) (canvas_height canvas)) * 0.12;
          gradient = createRadialGradient x y 0 x y radius;
          alpha = max 0.3 (min 0.9 (spot_intensity spot));
          gradient = addColorStop 0 (rgba 255 0 0 alpha) gradient;
          gradient = addColorStop 0.4 (rgba 255 165 0 (alpha * 0.8)) gradient;
          gradient = addColorStop 0.7 (rgba 255 255 0 (alpha * 0.5)) gradient;
          gradient = addColorStop 1 (rgba 255 255 255 0) gradient;
          canvas = set_globalCompositeOperation screen canvas;
          canvas = set_fillStyle (Gradient gradient) canvas;
          canvas = beginPath canvas;
          canvas = arc x y radius 0 (2 * pi) canvas;
          canvas = fill canvas
      in canvas)"

definition render_heatmap :: "Hotspot list \<Rightarrow> canvas \<Rightarrow> canvas" where
  "render_heatmap sortedHotspots canvas =
     (let canvas = fold heatmap_spot sortedHotspots canvas;
          canvas = set_globalCompositeOperation source_over canvas
      in canvas)"

text \<open>The body of \<^verbatim>\<open>sortedHotspots.forEach\<close> in fogmap mode.\<close>

definition fogmap_spot :: "Hotspot \<Rightarrow> canvas \<Rightarrow> canvas" where
  "fogmap_spot spot canvas =
     (let x = (spot_x spot / 100) * real (canvas_width canvas);
          y = (spot_y spot / 100) * real (canvas_height canvas);
          radius = real (min (canvas_width canvas) (canvas_height canvas)) * 0.14;
          gradient = createRadialGradient x y 0 x y radius;
          gradient = addColorStop 0 (rgba 0 0 0 1) gradient;
          gradient = addColorStop 0.5 (rgba 0 0 0 0.5) gradient;
          gradient = addColorStop 1 (rgba 0 0 0 0) gradient;
          canvas = set_fillStyle (Gradient gradient) canvas;
          canvas = beginPath canvas;
          canvas = arc x y radius 0 (2 * pi) canvas;
          canvas = fill canvas
      in canvas)"

definition render_fogmap :: "Hotspot list \<Rightarrow> canvas \<Rightarrow> canvas" where
  "render_fogmap sortedHotspots canvas =
     (let canvas = set_fillStyle (Colour (rgba 15 23 42 0.92)) canvas;
          canvas = fillRect 0 0 (real (canvas_width canvas)) (real (canvas_height canvas)) canvas;
          canvas = set_globalCompositeOperation destination_out canvas;
          canvas = fold fogmap_spot sortedHotspots canvas;
          canvas = set_globalCompositeOperation source_over canvas
      in canvas)"

text \<open>
  Path mode: the first \<^verbatim>\<open>forEach\<close> builds the polyline (its callback takes the index),
  the second draws a marker and a number for each point.
\<close>

definition path_vertex :: "nat \<times> Hotspot \<Rightarrow> canvas \<Rightarrow> canvas" where
  "path_vertex = (\<lambda>(idx, spot) canvas.
     (let x = (spot_x spot / 100) * real (canvas_width canvas);
          y = (spot_y spot / 100) * real (canvas_height canvas)
      in if idx = 0 then moveTo x y canvas else lineTo x y canvas))"

definition path_marker :: "Hotspot \<Rightarrow> canvas \<Rightarrow> canvas" where
  "path_marker spot canvas =
     (let x = (spot_x spot / 100) * real (canvas_width canvas);
          y = (spot_y spot / 100) * real (canvas_height canvas);
          circleRadius = max 12 (real (canvas_width canvas) * 0.015);
          canvas = set_shadowColor (rgba 0 0 0 0.5) canvas;
          canvas = set_shadowBlur 10 canvas;
          canvas = set_fillStyle
            (if spot_id spot = 1 then Colour (rgba 236 72 153 1) else Colour (rgba 255 255 255 1))
            canvas;
          canvas = beginPath canvas;
          canvas = arc x y circleRadius 0 (2 * pi) canvas;
          canvas = fill canvas;
          canvas = set_shadowBlur 0 canvas;
          canvas = set_strokeStyle (Colour (rgba 236 72 153 1)) canvas;
          canvas = set_lineWidth 3 canvas;
          canvas = stroke canvas;
          canvas = set_fillStyle
            (if spot_id spot = 1 then Colour (rgba 255 255 255 1) else Colour (rgba 236 72 153 1))
            canvas;
          canvas = set_font (Font True (max 12 circleRadius) ''Inter, sans-serif'') canvas;
          canvas = set_textAlign align_center canvas;
          canvas = set_textBaseline middle canvas;
          canvas = fillText (spot_id spot) x (y + 2) canvas
      in canvas)"

definition render_path :: "Hotspot list \<Rightarrow> canvas \<Rightarrow> canvas" where
  "render_path sortedHotspots canvas =
     (let canvas = set_strokeStyle (Colour (rgba 236 72 153 0.8)) canvas;
          canvas = set_lineWidth (max 2 (real (canvas_width canvas) * 0.003)) canvas;
          canvas = setLineDash [15, 10] canvas;
          canvas = beginPath canvas;
          canvas = fold path_vertex (enumerate 0 sortedHotspots) canvas;
          canvas = stroke canvas;
          canvas = setLineDash [] canvas;
          canvas = fold path_marker sortedHotspots canvas
      in canvas)"

text \<open>
  The arrays of the JavaScript heap, by reference: \<^verbatim>\<open>hotspots\<close> is a reference into
  \<open>heap\<close>, \<open>next_ref\<close> is the first reference not yet allocated, and
  \<^verbatim>\<open>canvasRef.current\<close> is the canvas element (or null).
\<close>

record world =
  heap :: "nat \<Rightarrow> Hotspot list"
  next_ref :: nat
  canvasRef :: "canvas option"

text \<open>\<^verbatim>\<open>[...hotspots]\<close>: a new array with the same elements.\<close>

definition spread :: "nat \<Rightarrow> world \<Rightarrow> nat \<times> world" where
  "spread r w =
     (next_ref w, w\<lparr>heap := (heap w)(next_ref w := heap w r), next_ref := Suc (next_ref w)\<rparr>)"

text \<open>
  \<^verbatim>\<open>Array.prototype.sort\<close> with the comparator \<^verbatim>\<open>(a, b) => a.id - b.id\<close>: sorts
  the array in place, stably, and returns the same reference.
\<close>

definition array_sort_by_id :: "nat \<Rightarrow> world \<Rightarrow> nat \<times> world" where
  "array_sort_by_id r w = (r, w\<lparr>heap := (heap w)(r := sort_key spot_id (heap w r))\<rparr>)"

text \<open>
  The render effect, run when \<^verbatim>\<open>dimensions\<close>, \<^verbatim>\<open>hotspots\<close> or \<^verbatim>\<open>mode\<close>
  change. \<^verbatim>\<open>hotspots\<close> is a reference or null.
\<close>

definition render_effect ::
  "world \<Rightarrow> dims option \<Rightarrow> nat option \<Rightarrow> VisualizationMode \<Rightarrow> world" where
  "render_effect w dimensions hotspots mode =
     (case canvasRef w of
        None \<Rightarrow> w
      | Some canvas \<Rightarrow>
     (case dimensions of
        None \<Rightarrow> w
      | Some d \<Rightarrow>
          if \<not> supports2d canvas then w
          else
            let canvas = set_canvas_width (width d) canvas;
                canvas = set_canvas_height (height d) canvas;
                canvas = clearRect 0 0 (real (canvas_width canvas)) (real (canvas_height canvas)) canvas;
                w = w\<lparr>canvasRef := Some canvas\<rparr>
            in
              (case hotspots of
                 None \<Rightarrow> w
               | Some r \<Rightarrow>
                   if length (heap w r) = 0 then w
                   else
                     let (copy, w) = spread r w;
                         (sortedHotspots, w) = array_sort_by_id copy w;
                         canvas = (if mode = Heatmap
                                   then render_heatmap (heap w sortedHotspots) canvas else canvas);
                         canvas = (if mode = Fogmap
                                   then render_fogmap (heap w sortedHotspots) canvas else canvas);
                         canvas = (if mode = Path
                                   then render_path (heap w sortedHotspots) canvas else canvas)
                     in w\<lparr>canvasRef := Some canvas\<rparr>)))"

section \<open>Observing the bitmap\<close>

text \<open>The operations on the canvas of a world, and the drawing state it is left in.\<close>

definition surface :: "world \<Rightarrow> draw list" where
  "surface w = (case canvasRef w of None \<Rightarrow> [] | Some c \<Rightarrow> drawn c)"

definition final_composite :: "world \<Rightarrow> CompositeOperation option" where
  "final_composite w = map_option (\<lambda>c. globalCompositeOperation (ctx c)) (canvasRef w)"

text \<open>
  What was filled, stroked and written: for every \<^verbatim>\<open>fill\<close> its style and path, for
  every \<^verbatim>\<open>stroke\<close> its style, line width, dash pattern and path, for every
  \<^verbatim>\<open>fillText\<close> its style, number and position; and the compositing operation each
  painting operation was executed with.
\<close>

definition fills :: "draw list \<Rightarrow> (style \<times> path_cmd list) list" where
  "fills ds = concat (map (\<lambda>d. case d of Fill st \<Rightarrow> [(fillStyle st, subpaths st)] | _ \<Rightarrow> []) ds)"

definition strokes :: "draw list \<Rightarrow> (style \<times> real \<times> real list \<times> path_cmd list) list" where
  "strokes ds = concat (map (\<lambda>d. case d of
       Stroke st \<Rightarrow> [(strokeStyle st, lineWidth st, lineDash st, subpaths st)] | _ \<Rightarrow> []) ds)"

definition texts :: "draw list \<Rightarrow> (style \<times> int \<times> real \<times> real) list" where
  "texts ds = concat (map (\<lambda>d. case d of
       FillText st n x y \<Rightarrow> [(fillStyle st, n, x, y)] | _ \<Rightarrow> []) ds)"

definition composites :: "draw list \<Rightarrow> CompositeOperation list" where
  "composites ds = concat (map (\<lambda>d. case d of
       ClearRect x y w h \<Rightarrow> []
     | FillRect st x y w h \<Rightarrow> [globalCompositeOperation st]
     | Fill st \<Rightarrow> [globalCompositeOperation st]
     | Stroke st \<Rightarrow> [globalCompositeOperation st]
     | FillText st n x y \<Rightarrow> [globalCompositeOperation st]) ds)"

text \<open>
  The point a path command is placed at (the centre, for an arc), the two centres of a
  gradient, and all of them over the paths and fill gradients of a list of operations.
\<close>

fun anchor :: "path_cmd \<Rightarrow> real \<times> real" where
  "anchor (MoveTo x y) = (x, y)"
| "anchor (LineTo x y) = (x, y)"
| "anchor (Arc x y radius startAngle endAngle) = (x, y)"

fun gradient_centres :: "style \<Rightarrow> (real \<times> real) list" where
  "gradient_centres (Colour c) = []"
| "gradient_centres (Gradient (RadialGradient x0 y0 r0 x1 y1 r1 stops)) = [(x0, y0), (x1, y1)]"

definition anchor_points :: "draw list \<Rightarrow> (real \<times> real) list" where
  "anchor_points ds = concat (map (\<lambda>d. case d of
       Fill st \<Rightarrow> map anchor (subpaths st) @ gradient_centres (fillStyle st)
     | Stroke st \<Rightarrow> map anchor (subpaths st)
     | _ \<Rightarrow> []) ds)"

text \<open>The alpha values of the colour stops of a gradient, in the order they were added.\<close>

fun colour_alpha :: "css_colour \<Rightarrow> real" where
  "colour_alpha (rgba r g b a) = a"

fun stop_alphas :: "style \<Rightarrow> real list" where
  "stop_alphas (Colour c) = []"
| "stop_alphas (Gradient (RadialGradient x0 y0 r0 x1 y1 r1 stops)) = map (colour_alpha \<circ> snd) stops"

text \<open>
  The straight segments of a path. \<^verbatim>\<open>moveTo\<close> starts a subpath, \<^verbatim>\<open>lineTo\<close> adds a
  segment from the current point, \<^verbatim>\<open>arc\<close> adds a segment from the current point (if
  any) to the start of the arc and leaves the current point at its end.
\<close>

fun segments_from ::
  "(real \<times> real) option \<Rightarrow> path_cmd list \<Rightarrow> ((real \<times> real) \<times> (real \<times> real)) list" where
  "segments_from cur [] = []"
| "segments_from cur (MoveTo x y # cs) = segments_from (Some (x, y)) cs"
| "segments_from None (LineTo x y # cs) = segments_from (Some (x, y)) cs"
| "segments_from (Some p) (LineTo x y # cs) = (p, (x, y)) # segments_from (Some (x, y)) cs"
| "segments_from None (Arc x y r a0 a1 # cs) =
     segments_from (Some (x + r * cos a1, y + r * sin a1)) cs"
| "segments_from (Some p) (Arc x y r a0 a1 # cs) =
     (p, (x + r * cos a0, y + r * sin a0)) # segments_from (Some (x + r * cos a1, y + r * sin a1)) cs"

definition segments :: "path_cmd list \<Rightarrow> ((real \<times> real) \<times> (real \<times> real)) list" where
  "segments cs = segments_from None cs"

section \<open>Compositing\<close>

text \<open>
  The pixels of the bitmap. A colour is a premultiplied quadruple (red, green, blue,
  alpha) and a pixel is a point of the plane. The colour a painting operation deposits at
  a pixel before compositing (shape, gradient, dashes, glyphs, shadow) is the
  rasterizer's business and a parameter \<open>src\<close>; what the context does with it is
  fixed by the compositing operation (W3C Compositing and Blending): for a backdrop
  \<open>b\<close> and a source \<open>s\<close> with alpha \<open>sa\<close>, \<^verbatim>\<open>source-over\<close> gives
  \<open>s + b (1 - sa)\<close>, \<^verbatim>\<open>destination-out\<close> gives \<open>b (1 - sa)\<close>, and \<^verbatim>\<open>screen\<close>
  (the screen blend followed by source-over) gives \<open>s + b - s b\<close> in every channel.
\<close>

type_synonym premul = "real \<times> real \<times> real \<times> real"

fun composite :: "CompositeOperation \<Rightarrow> premul \<Rightarrow> premul \<Rightarrow> premul" where
  "composite source_over (rb, gb, bb, ab) (rs, gs, bs, sa) =
     (rs + rb * (1 - sa), gs + gb * (1 - sa), bs + bb * (1 - sa), sa + ab * (1 - sa))"
| "composite screen (rb, gb, bb, ab) (rs, gs, bs, sa) =
     (rs + rb - rs * rb, gs + gb - gs * gb, bs + bb - bs * bb, sa + ab - sa * ab)"
| "composite destination_out (rb, gb, bb, ab) (rs, gs, bs, sa) =
     (rb * (1 - sa), gb * (1 - sa), bb * (1 - sa), ab * (1 - sa))"

definition transparent :: premul where
  "transparent = (0, 0, 0, 0)"

text \<open>
  The bitmap keeps 8 bits for every channel: what an operation leaves at a pixel is
  rounded to the nearest multiple of 1/255 (halves upwards) before the next operation
  reads it.
\<close>

definition quantise :: "real \<Rightarrow> real" where
  "quantise v = real_of_int \<lfloor>v * 255 + 1 / 2\<rfloor> / 255"

fun store :: "premul \<Rightarrow> premul" where
  "store (r, g, b, a) = (quantise r, quantise g, quantise b, quantise a)"

definition apply_draw ::
  "(draw \<Rightarrow> real \<times> real \<Rightarrow> premul) \<Rightarrow> draw \<Rightarrow> (real \<times> real \<Rightarrow> premul) \<Rightarrow> real \<times> real \<Rightarrow> premul" where
  "apply_draw src d bitmap p =
     (case d of
        ClearRect x y w h \<Rightarrow>
          if min x (x + w) \<le> fst p \<and> fst p < max x (x + w) \<and>
             min y (y + h) \<le> snd p \<and> snd p < max y (y + h)
          then transparent else bitmap p
      | FillRect st x y w h \<Rightarrow> store (composite (globalCompositeOperation st) (bitmap p) (src d p))
      | Fill st \<Rightarrow> store (composite (globalCompositeOperation st) (bitmap p) (src d p))
      | Stroke st \<Rightarrow> store (composite (globalCompositeOperation st) (bitmap p) (src d p))
      | FillText st n x y \<Rightarrow> store (composite (globalCompositeOperation st) (bitmap p) (src d p)))"

definition pixels :: "(draw \<Rightarrow> real \<times> real \<Rightarrow> premul) \<Rightarrow> draw list \<Rightarrow> real \<times> real \<Rightarrow> premul" where
  "pixels src ds = fold (apply_draw src) ds (\<lambda>p. transparent)"







section \<open>Closed forms of the drawing loops\<close>

text \<open>
  The drawing state in which \<open>heatmap_spot\<close> and \<open>fogmap_spot\<close> fill, given the state
  \<open>st\<close> before and the size of the canvas (lemmas \<open>heatmap_spot_eq\<close> and
  \<open>fogmap_spot_eq\<close>).
\<close>

definition heatmap_state ::
  "CanvasRenderingContext2D \<Rightarrow> nat \<Rightarrow> nat \<Rightarrow> Hotspot \<Rightarrow> CanvasRenderingContext2D" where
  "heatmap_state st W H spot =
     (let x = (spot_x spot / 100) * real W;
          y = (spot_y spot / 100) * real H;
          radius = real (min W H) * 0.12;
          alpha = max 0.3 (min 0.9 (spot_intensity spot))
      in st\<lparr>globalCompositeOperation := screen,
            fillStyle := Gradient (RadialGradient x y 0 x y radius
              [(0, rgba 255 0 0 alpha), (0.4, rgba 255 165 0 (alpha * 0.8)),
               (0.7, rgba 255 255 0 (alpha * 0.5)), (1, rgba 255 255 255 0)]),
            subpaths := [Arc x y radius 0 (2 * pi)]\<rparr>)"

definition fogmap_state ::
  "CanvasRenderingContext2D \<Rightarrow> nat \<Rightarrow> nat \<Rightarrow> Hotspot \<Rightarrow> CanvasRenderingContext2D" where
  "fogmap_state st W H spot =
     (let x = (spot_x spot / 100) * real W;
          y = (spot_y spot / 100) * real H;
          radius = real (min W H) * 0.14
      in st\<lparr>fillStyle := Gradient (RadialGradient x y 0 x y radius
              [(0, rgba 0 0 0 1), (0.5, rgba 0 0 0 0.5), (1, rgba 0 0 0 0)]),
            subpaths := [Arc x y radius 0 (2 * pi)]\<rparr>)"

text \<open>The path that the first loop of path mode builds (lemma \<open>render_path_eq\<close>).\<close>

definition polyline :: "nat \<Rightarrow> nat \<Rightarrow> Hotspot list \<Rightarrow> path_cmd list" where
  "polyline W H hs =
     (case hs of
        [] \<Rightarrow> []
      | s # ss \<Rightarrow>
          MoveTo ((spot_x s / 100) * real W) ((spot_y s / 100) * real H) #
          map (\<lambda>s. LineTo ((spot_x s / 100) * real W) ((spot_y s / 100) * real H)) ss)"

text \<open>
  The canvas the render effect leaves, given the canvas before, the resolved dimensions
  and the contents of the hotspot array (lemma \<open>render_effect_canvas\<close>).
\<close>

definition repainted :: "canvas \<Rightarrow> dims \<Rightarrow> Hotspot list \<Rightarrow> VisualizationMode \<Rightarrow> canvas" where
  "repainted c d hs mode =
     (let blank = c\<lparr>canvas_width := width d, canvas_height := height d,
                    ctx := default_context, drawn := []\<rparr>
      in if hs = [] then blank
         else (case mode of
                 Heatmap \<Rightarrow> render_heatmap (sort_key spot_id hs) blank
               | Fogmap \<Rightarrow> render_fogmap (sort_key spot_id hs) blank
               | Path \<Rightarrow> render_path (sort_key spot_id hs) blank))"

section \<open>Example inputs\<close>

text \<open>
  A canvas element as the document creates it (300 by 150, nothing drawn), a world whose
  only array, at reference 0, holds the given hotspots, and some hotspot lists.
\<close>

definition new_canvas :: canvas where
  "new_canvas = \<lparr>canvas_width = 300, canvas_height = 150, supports2d = True,
                  ctx = default_context, drawn = []\<rparr>"

definition world_of :: "Hotspot list \<Rightarrow> world" where
  "world_of hs = \<lparr>heap = (\<lambda>r. [])(0 := hs), next_ref = 1, canvasRef = Some new_canvas\<rparr>"

definition hotspot :: "int \<Rightarrow> real \<Rightarrow> real \<Rightarrow> real \<Rightarrow> Hotspot" where
  "hotspot n x y i = \<lparr>spot_id = n, spot_x = x, spot_y = y, spot_intensity = i, spot_label = None\<rparr>"

section \<open>The drawing loops\<close>

lemmas canvas_api =
  set_globalCompositeOperation_def set_fillStyle_def set_strokeStyle_def set_lineWidth_def
  setLineDash_def set_shadowColor_def set_shadowBlur_def set_font_def set_textAlign_def
  set_textBaseline_def beginPath_def moveTo_def lineTo_def arc_def fill_def stroke_def
  fillRect_def fillText_def createRadialGradient_def

lemma heatmap_spot_eq:
  "heatmap_spot s c =
     c\<lparr>ctx := heatmap_state (ctx c) (canvas_width c) (canvas_height c) s,
       drawn := drawn c @ [Fill (heatmap_state (ctx c) (canvas_width c) (canvas_height c) s)]\<rparr>"
  by (simp add: heatmap_spot_def heatmap_state_def canvas_api Let_def)

lemma heatmap_state_idem:
  "heatmap_state (heatmap_state st W H s1) W H s2 = heatmap_state st W H s2"
  by (simp add: heatmap_state_def Let_def)

lemma fold_heatmap_spot:
  "fold heatmap_spot hs c =
     (if hs = [] then c
      else c\<lparr>ctx := heatmap_state (ctx c) (canvas_width c) (canvas_height c) (last hs),
             drawn := drawn c @
               map (\<lambda>s. Fill (heatmap_state (ctx c) (canvas_width c) (canvas_height c) s)) hs\<rparr>)"
proof (induction hs rule: rev_induct)
  case Nil
  show ?case by simp
next
  case (snoc s hs)
  have step: "fold heatmap_spot (hs @ [s]) c = heatmap_spot s (fold heatmap_spot hs c)"
    by simp
  show ?case
    unfolding step snoc
    by (cases "hs = []") (simp_all add: heatmap_spot_eq heatmap_state_idem)
qed

lemma fogmap_spot_eq:
  "fogmap_spot s c =
     c\<lparr>ctx := fogmap_state (ctx c) (canvas_width c) (canvas_height c) s,
       drawn := drawn c @ [Fill (fogmap_state (ctx c) (canvas_width c) (canvas_height c) s)]\<rparr>"
  by (simp add: fogmap_spot_def fogmap_state_def canvas_api Let_def)

lemma fogmap_state_idem:
  "fogmap_state (fogmap_state st W H s1) W H s2 = fogmap_state st W H s2"
  by (simp add: fogmap_state_def Let_def)

lemma fold_fogmap_spot:
  "fold fogmap_spot hs c =
     (if hs = [] then c
      else c\<lparr>ctx := fogmap_state (ctx c) (canvas_width c) (canvas_height c) (last hs),
             drawn := drawn c @
               map (\<lambda>s. Fill (fogmap_state (ctx c) (canvas_width c) (canvas_height c) s)) hs\<rparr>)"
proof (induction hs rule: rev_induct)
  case Nil
  show ?case by simp
next
  case (snoc s hs)
  have step: "fold fogmap_spot (hs @ [s]) c = fogmap_spot s (fold fogmap_spot hs c)"
    by simp
  show ?case
    unfolding step snoc
    by (cases "hs = []") (simp_all add: fogmap_spot_eq fogmap_state_idem)
qed

text \<open>What the heatmap and the fog routine leave on a canvas.\<close>

lemma drawn_render_heatmap:
  "drawn (render_heatmap hs c) =
     drawn c @ map (\<lambda>s. Fill (heatmap_state (ctx c) (canvas_width c) (canvas_height c) s)) hs"
  by (simp add: render_heatmap_def fold_heatmap_spot set_globalCompositeOperation_def Let_def)

lemma composite_render_heatmap:
  "globalCompositeOperation (ctx (render_heatmap hs c)) = source_over"
  by (simp add: render_heatmap_def set_globalCompositeOperation_def Let_def)

lemma size_render_heatmap:
  "canvas_width (render_heatmap hs c) = canvas_width c \<and>
   canvas_height (render_heatmap hs c) = canvas_height c \<and>
   supports2d (render_heatmap hs c) = supports2d c"
  by (simp add: render_heatmap_def fold_heatmap_spot set_globalCompositeOperation_def Let_def)

lemma drawn_render_fogmap:
  "drawn (render_fogmap hs c) =
     drawn c @
     FillRect ((ctx c)\<lparr>fillStyle := Colour (rgba 15 23 42 0.92)\<rparr>)
       0 0 (real (canvas_width c)) (real (canvas_height c)) #
     map (\<lambda>s. Fill (fogmap_state
                 ((ctx c)\<lparr>fillStyle := Colour (rgba 15 23 42 0.92),
                          globalCompositeOperation := destination_out\<rparr>)
                 (canvas_width c) (canvas_height c) s)) hs"
  by (simp add: render_fogmap_def fold_fogmap_spot canvas_api Let_def)

lemma composite_render_fogmap:
  "globalCompositeOperation (ctx (render_fogmap hs c)) = source_over"
  by (simp add: render_fogmap_def set_globalCompositeOperation_def Let_def)

lemma size_render_fogmap:
  "canvas_width (render_fogmap hs c) = canvas_width c \<and>
   canvas_height (render_fogmap hs c) = canvas_height c \<and>
   supports2d (render_fogmap hs c) = supports2d c"
  by (simp add: render_fogmap_def fold_fogmap_spot canvas_api Let_def)

lemma fold_path_vertex_tail:
  "0 < n \<Longrightarrow> subpaths (ctx c) \<noteq> [] \<Longrightarrow>
   fold path_vertex (enumerate n hs) c =
     c\<lparr>ctx := (ctx c)\<lparr>subpaths := subpaths (ctx c) @
        map (\<lambda>s. LineTo ((spot_x s / 100) * real (canvas_width c))
                         ((spot_y s / 100) * real (canvas_height c))) hs\<rparr>\<rparr>"
proof (induction hs arbitrary: n c)
  case Nil
  show ?case by simp
next
  case (Cons s hs)
  let ?c = "path_vertex (n, s) c"
  have c': "?c = c\<lparr>ctx := (ctx c)\<lparr>subpaths := subpaths (ctx c) @
      [LineTo ((spot_x s / 100) * real (canvas_width c)) ((spot_y s / 100) * real (canvas_height c))]\<rparr>\<rparr>"
    using Cons.prems by (simp add: path_vertex_def lineTo_def Let_def)
  have "fold path_vertex (enumerate n (s # hs)) c = fold path_vertex (enumerate (Suc n) hs) ?c"
    by simp
  also have "\<dots> = ?c\<lparr>ctx := (ctx ?c)\<lparr>subpaths := subpaths (ctx ?c) @
        map (\<lambda>s. LineTo ((spot_x s / 100) * real (canvas_width ?c))
                         ((spot_y s / 100) * real (canvas_height ?c))) hs\<rparr>\<rparr>"
    by (rule Cons.IH) (simp_all add: c')
  also have "\<dots> = c\<lparr>ctx := (ctx c)\<lparr>subpaths := subpaths (ctx c) @
        map (\<lambda>s. LineTo ((spot_x s / 100) * real (canvas_width c))
                         ((spot_y s / 100) * real (canvas_height c))) (s # hs)\<rparr>\<rparr>"
    by (simp add: c')
  finally show ?case .
qed

lemma fold_path_vertex:
  assumes "subpaths (ctx c) = []"
  shows "fold path_vertex (enumerate 0 hs) c =
     c\<lparr>ctx := (ctx c)\<lparr>subpaths :=
        (case hs of
           [] \<Rightarrow> []
         | s # ss \<Rightarrow>
             MoveTo ((spot_x s / 100) * real (canvas_width c))
                    ((spot_y s / 100) * real (canvas_height c)) #
             map (\<lambda>s. LineTo ((spot_x s / 100) * real (canvas_width c))
                              ((spot_y s / 100) * real (canvas_height c))) ss)\<rparr>\<rparr>"
proof (cases hs)
  case Nil
  then show ?thesis using assms by simp
next
  case (Cons s ss)
  let ?c = "path_vertex (0, s) c"
  have c': "?c = c\<lparr>ctx := (ctx c)\<lparr>subpaths :=
      [MoveTo ((spot_x s / 100) * real (canvas_width c)) ((spot_y s / 100) * real (canvas_height c))]\<rparr>\<rparr>"
    using assms by (simp add: path_vertex_def moveTo_def Let_def)
  have "fold path_vertex (enumerate 0 hs) c = fold path_vertex (enumerate (Suc 0) ss) ?c"
    by (simp add: Cons)
  also have "\<dots> = ?c\<lparr>ctx := (ctx ?c)\<lparr>subpaths := subpaths (ctx ?c) @
        map (\<lambda>s. LineTo ((spot_x s / 100) * real (canvas_width ?c))
                         ((spot_y s / 100) * real (canvas_height ?c))) ss\<rparr>\<rparr>"
    by (rule fold_path_vertex_tail) (simp_all add: c')
  finally show ?thesis
    by (simp add: c' Cons)
qed

text \<open>One marker: size and dash pattern are kept, and three operations are added.\<close>

lemma path_marker_frame:
  "canvas_width (path_marker s c) = canvas_width c \<and>
   canvas_height (path_marker s c) = canvas_height c \<and>
   supports2d (path_marker s c) = supports2d c \<and>
   lineDash (ctx (path_marker s c)) = lineDash (ctx c) \<and>
   globalCompositeOperation (ctx (path_marker s c)) = globalCompositeOperation (ctx c)"
  by (simp add: path_marker_def canvas_api Let_def)

lemma fills_path_marker:
  "fills (drawn (path_marker s c)) = fills (drawn c) @
     [(if spot_id s = 1 then Colour (rgba 236 72 153 1) else Colour (rgba 255 255 255 1),
       [Arc ((spot_x s / 100) * real (canvas_width c)) ((spot_y s / 100) * real (canvas_height c))
            (max 12 (real (canvas_width c) * 0.015)) 0 (2 * pi)])]"
  by (simp add: path_marker_def canvas_api Let_def fills_def)

lemma strokes_path_marker:
  "strokes (drawn (path_marker s c)) = strokes (drawn c) @
     [(Colour (rgba 236 72 153 1), 3, lineDash (ctx c),
       [Arc ((spot_x s / 100) * real (canvas_width c)) ((spot_y s / 100) * real (canvas_height c))
            (max 12 (real (canvas_width c) * 0.015)) 0 (2 * pi)])]"
  by (simp add: path_marker_def canvas_api Let_def strokes_def)

lemma texts_path_marker:
  "texts (drawn (path_marker s c)) = texts (drawn c) @
     [(if spot_id s = 1 then Colour (rgba 255 255 255 1) else Colour (rgba 236 72 153 1),
       spot_id s,
       (spot_x s / 100) * real (canvas_width c), (spot_y s / 100) * real (canvas_height c) + 2)]"
  by (simp add: path_marker_def canvas_api Let_def texts_def)

lemma anchor_points_path_marker:
  "anchor_points (drawn (path_marker s c)) = anchor_points (drawn c) @
     [((spot_x s / 100) * real (canvas_width c), (spot_y s / 100) * real (canvas_height c)),
      ((spot_x s / 100) * real (canvas_width c), (spot_y s / 100) * real (canvas_height c))]"
  by (simp add: path_marker_def canvas_api Let_def anchor_points_def)

lemma fold_path_marker_frame:
  "canvas_width (fold path_marker hs c) = canvas_width c \<and>
   canvas_height (fold path_marker hs c) = canvas_height c \<and>
   supports2d (fold path_marker hs c) = supports2d c \<and>
   lineDash (ctx (fold path_marker hs c)) = lineDash (ctx c) \<and>
   globalCompositeOperation (ctx (fold path_marker hs c)) = globalCompositeOperation (ctx c)"
  by (induction hs arbitrary: c) (simp_all add: path_marker_frame)

lemma fills_fold_path_marker:
  "fills (drawn (fold path_marker hs c)) = fills (drawn c) @
     map (\<lambda>s. (if spot_id s = 1 then Colour (rgba 236 72 153 1) else Colour (rgba 255 255 255 1),
       [Arc ((spot_x s / 100) * real (canvas_width c)) ((spot_y s / 100) * real (canvas_height c))
            (max 12 (real (canvas_width c) * 0.015)) 0 (2 * pi)])) hs"
  by (induction hs arbitrary: c) (simp_all add: fills_path_marker path_marker_frame)

lemma strokes_fold_path_marker:
  "strokes (drawn (fold path_marker hs c)) = strokes (drawn c) @
     map (\<lambda>s. (Colour (rgba 236 72 153 1), 3, lineDash (ctx c),
       [Arc ((spot_x s / 100) * real (canvas_width c)) ((spot_y s / 100) * real (canvas_height c))
            (max 12 (real (canvas_width c) * 0.015)) 0 (2 * pi)])) hs"
  by (induction hs arbitrary: c) (simp_all add: strokes_path_marker path_marker_frame)

lemma texts_fold_path_marker:
  "texts (drawn (fold path_marker hs c)) = texts (drawn c) @
     map (\<lambda>s. (if spot_id s = 1 then Colour (rgba 255 255 255 1) else Colour (rgba 236 72 153 1),
       spot_id s,
       (spot_x s / 100) * real (canvas_width c), (spot_y s / 100) * real (canvas_height c) + 2)) hs"
  by (induction hs arbitrary: c) (simp_all add: texts_path_marker path_marker_frame)

lemma anchor_points_fold_path_marker:
  "anchor_points (drawn (fold path_marker hs c)) = anchor_points (drawn c) @
     concat (map (\<lambda>s.
       [((spot_x s / 100) * real (canvas_width c), (spot_y s / 100) * real (canvas_height c)),
        ((spot_x s / 100) * real (canvas_width c), (spot_y s / 100) * real (canvas_height c))]) hs)"
  by (induction hs arbitrary: c) (simp_all add: anchor_points_path_marker path_marker_frame)

lemma render_path_eq:
  "render_path hs c =
     fold path_marker hs
       (c\<lparr>ctx := (ctx c)\<lparr>strokeStyle := Colour (rgba 236 72 153 0.8),
                        lineWidth := max 2 (real (canvas_width c) * 0.003),
                        lineDash := [],
                        subpaths := polyline (canvas_width c) (canvas_height c) hs\<rparr>,
          drawn := drawn c @
            [Stroke ((ctx c)\<lparr>strokeStyle := Colour (rgba 236 72 153 0.8),
                        lineWidth := max 2 (real (canvas_width c) * 0.003),
                        lineDash := [15, 10],
                        subpaths := polyline (canvas_width c) (canvas_height c) hs\<rparr>)]\<rparr>)"
proof -
  let ?c1 = "c\<lparr>ctx := (ctx c)\<lparr>strokeStyle := Colour (rgba 236 72 153 0.8),
                        lineWidth := max 2 (real (canvas_width c) * 0.003),
                        lineDash := [15, 10],
                        subpaths := []\<rparr>\<rparr>"
  have start: "beginPath (setLineDash [15, 10]
      (set_lineWidth (max 2 (real (canvas_width (set_strokeStyle (Colour (rgba 236 72 153 0.8)) c)) * 0.003))
        (set_strokeStyle (Colour (rgba 236 72 153 0.8)) c))) = ?c1"
    by (simp add: canvas_api)
  have line: "fold path_vertex (enumerate 0 hs) ?c1 =
      ?c1\<lparr>ctx := (ctx ?c1)\<lparr>subpaths := polyline (canvas_width c) (canvas_height c) hs\<rparr>\<rparr>"
    by (simp add: fold_path_vertex polyline_def split: list.split)
  show ?thesis
    unfolding render_path_def Let_def start line
    by (rule arg_cong [of _ _ "fold path_marker hs"])
       (auto simp add: canvas_api intro!: canvas.equality CanvasRenderingContext2D.equality)
qed

section \<open>The render effect\<close>

lemma render_effect_canvas:
  assumes "canvasRef w = Some c" and "supports2d c"
  shows "canvasRef (render_effect w (Some d) hotspots mode) =
     Some (repainted c d (case hotspots of None \<Rightarrow> [] | Some r \<Rightarrow> heap w r) mode)"
  using assms
  by (cases mode)
     (simp_all add: render_effect_def repainted_def set_canvas_width_def set_canvas_height_def
        clearRect_def spread_def array_sort_by_id_def Let_def split: option.split)

lemma render_effect_heap:
  "a < next_ref w \<Longrightarrow> heap (render_effect w dimensions hotspots mode) a = heap w a"
  by (simp add: render_effect_def spread_def array_sort_by_id_def Let_def split: option.split)

lemma repainted_cong:
  "supports2d c = supports2d c' \<Longrightarrow> repainted c d hs mode = repainted c' d hs mode"
proof -
  assume "supports2d c = supports2d c'"
  then have "c\<lparr>canvas_width := width d, canvas_height := height d, ctx := default_context, drawn := []\<rparr>
      = c'\<lparr>canvas_width := width d, canvas_height := height d, ctx := default_context, drawn := []\<rparr>"
    by (intro canvas.equality) simp_all
  then show ?thesis
    by (simp add: repainted_def Let_def)
qed

lemma repainted_supports2d: "supports2d (repainted c d hs mode) = supports2d c"
  by (cases mode)
     (simp_all add: repainted_def Let_def size_render_heatmap size_render_fogmap
        render_path_eq fold_path_marker_frame)

lemma repainted_size:
  "canvas_width (repainted c d hs mode) = width d \<and> canvas_height (repainted c d hs mode) = height d"
  by (cases mode)
     (simp_all add: repainted_def Let_def size_render_heatmap size_render_fogmap
        render_path_eq fold_path_marker_frame)

lemma drawn_repainted_empty: "drawn (repainted c d [] mode) = []"
  by (simp add: repainted_def Let_def)

lemma ctx_repainted_empty: "ctx (repainted c d [] mode) = default_context"
  by (simp add: repainted_def Let_def)

lemma drawn_repainted_heatmap:
  "drawn (repainted c d hs Heatmap) =
     map (\<lambda>s. Fill (heatmap_state default_context (width d) (height d) s)) (sort_key spot_id hs)"
  by (simp add: repainted_def Let_def drawn_render_heatmap)

lemma drawn_repainted_fogmap:
  "hs \<noteq> [] \<Longrightarrow> drawn (repainted c d hs Fogmap) =
     FillRect (default_context\<lparr>fillStyle := Colour (rgba 15 23 42 0.92)\<rparr>)
       0 0 (real (width d)) (real (height d)) #
     map (\<lambda>s. Fill (fogmap_state
                 (default_context\<lparr>fillStyle := Colour (rgba 15 23 42 0.92),
                                  globalCompositeOperation := destination_out\<rparr>)
                 (width d) (height d) s)) (sort_key spot_id hs)"
  by (simp add: repainted_def Let_def drawn_render_fogmap)

lemma composite_repainted:
  "mode \<noteq> Path \<Longrightarrow> globalCompositeOperation (ctx (repainted c d hs mode)) = source_over"
  by (cases mode)
     (simp_all add: repainted_def Let_def composite_render_heatmap composite_render_fogmap default_context_def)

section \<open>Observations of the rendered canvas\<close>

lemma surface_render_effect:
  assumes "canvasRef w = Some c" and "supports2d c"
  shows "surface (render_effect w (Some d) hotspots mode) =
     drawn (repainted c d (case hotspots of None \<Rightarrow> [] | Some r \<Rightarrow> heap w r) mode)"
  by (simp add: surface_def render_effect_canvas [OF assms])

lemma pixels_Nil: "pixels src [] p = transparent"
  by (simp add: pixels_def)

lemma fills_simps:
  "fills [] = []"
  "fills (ClearRect x y w h # ds) = fills ds"
  "fills (FillRect st x y w h # ds) = fills ds"
  "fills (Fill st # ds) = (fillStyle st, subpaths st) # fills ds"
  "fills (Stroke st # ds) = fills ds"
  "fills (FillText st n x y # ds) = fills ds"
  "fills (ds @ es) = fills ds @ fills es"
  by (simp_all add: fills_def)

lemma strokes_simps:
  "strokes [] = []"
  "strokes (ClearRect x y w h # ds) = strokes ds"
  "strokes (FillRect st x y w h # ds) = strokes ds"
  "strokes (Fill st # ds) = strokes ds"
  "strokes (Stroke st # ds) = (strokeStyle st, lineWidth st, lineDash st, subpaths st) # strokes ds"
  "strokes (FillText st n x y # ds) = strokes ds"
  "strokes (ds @ es) = strokes ds @ strokes es"
  by (simp_all add: strokes_def)

lemma texts_simps:
  "texts [] = []"
  "texts (ClearRect x y w h # ds) = texts ds"
  "texts (FillRect st x y w h # ds) = texts ds"
  "texts (Fill st # ds) = texts ds"
  "texts (Stroke st # ds) = texts ds"
  "texts (FillText st n x y # ds) = (fillStyle st, n, x, y) # texts ds"
  "texts (ds @ es) = texts ds @ texts es"
  by (simp_all add: texts_def)

lemma composites_simps:
  "composites [] = []"
  "composites (ClearRect x y w h # ds) = composites ds"
  "composites (FillRect st x y w h # ds) = globalCompositeOperation st # composites ds"
  "composites (Fill st # ds) = globalCompositeOperation st # composites ds"
  "composites (Stroke st # ds) = globalCompositeOperation st # composites ds"
  "composites (FillText st n x y # ds) = globalCompositeOperation st # composites ds"
  "composites (ds @ es) = composites ds @ composites es"
  by (simp_all add: composites_def)

lemma anchor_points_simps:
  "anchor_points [] = []"
  "anchor_points (ClearRect x y w h # ds) = anchor_points ds"
  "anchor_points (FillRect st x y w h # ds) = anchor_points ds"
  "anchor_points (Fill st # ds) =
     map anchor (subpaths st) @ gradient_centres (fillStyle st) @ anchor_points ds"
  "anchor_points (Stroke st # ds) = map anchor (subpaths st) @ anchor_points ds"
  "anchor_points (FillText st n x y # ds) = anchor_points ds"
  "anchor_points (ds @ es) = anchor_points ds @ anchor_points es"
  by (simp_all add: anchor_points_def)

lemma fills_repainted_path:
  "fills (drawn (repainted c d hs Path)) =
     map (\<lambda>s. (if spot_id s = 1 then Colour (rgba 236 72 153 1) else Colour (rgba 255 255 255 1),
       [Arc ((spot_x s / 100) * real (width d)) ((spot_y s / 100) * real (height d))
            (max 12 (real (width d) * 0.015)) 0 (2 * pi)])) (sort_key spot_id hs)"
  by (cases "hs = []")
     (simp_all add: repainted_def Let_def render_path_eq fills_fold_path_marker fills_simps)

lemma texts_repainted_path:
  "texts (drawn (repainted c d hs Path)) =
     map (\<lambda>s. (if spot_id s = 1 then Colour (rgba 255 255 255 1) else Colour (rgba 236 72 153 1),
       spot_id s,
       (spot_x s / 100) * real (width d), (spot_y s / 100) * real (height d) + 2))
       (sort_key spot_id hs)"
  by (cases "hs = []")
     (simp_all add: repainted_def Let_def render_path_eq texts_fold_path_marker texts_simps)

lemma strokes_repainted_path:
  "hs \<noteq> [] \<Longrightarrow> strokes (drawn (repainted c d hs Path)) =
     (Colour (rgba 236 72 153 0.8), max 2 (real (width d) * 0.003), [15, 10],
      polyline (width d) (height d) (sort_key spot_id hs)) #
     map (\<lambda>s. (Colour (rgba 236 72 153 1), 3, [],
       [Arc ((spot_x s / 100) * real (width d)) ((spot_y s / 100) * real (height d))
            (max 12 (real (width d) * 0.015)) 0 (2 * pi)])) (sort_key spot_id hs)"
  by (simp add: repainted_def Let_def render_path_eq strokes_fold_path_marker strokes_simps)

lemma anchor_points_repainted_path:
  "hs \<noteq> [] \<Longrightarrow> anchor_points (drawn (repainted c d hs Path)) =
     map anchor (polyline (width d) (height d) (sort_key spot_id hs)) @
     concat (map (\<lambda>s.
       [((spot_x s / 100) * real (width d), (spot_y s / 100) * real (height d)),
        ((spot_x s / 100) * real (width d), (spot_y s / 100) * real (height d))])
       (sort_key spot_id hs))"
  by (simp add: repainted_def Let_def render_path_eq anchor_points_fold_path_marker anchor_points_simps)

lemmas example_inputs = world_of_def new_canvas_def hotspot_def

lemma fills_map_Fill: "fills (map (\<lambda>s. Fill (g s)) xs) = map (\<lambda>s. (fillStyle (g s), subpaths (g s))) xs"
  by (induction xs) (simp_all add: fills_simps)

lemma anchor_points_map_Fill:
  "anchor_points (map (\<lambda>s. Fill (g s)) xs) =
     concat (map (\<lambda>s. map anchor (subpaths (g s)) @ gradient_centres (fillStyle (g s))) xs)"
  by (induction xs) (simp_all add: anchor_points_simps)

lemma composites_map_Fill:
  "composites (map (\<lambda>s. Fill (g s)) xs) = map (\<lambda>s. globalCompositeOperation (g s)) xs"
  by (induction xs) (simp_all add: composites_simps)

lemma fills_repainted_heatmap:
  "fills (drawn (repainted c d hs Heatmap)) =
     map (\<lambda>s. (Gradient (RadialGradient
                  ((spot_x s / 100) * real (width d)) ((spot_y s / 100) * real (height d)) 0
                  ((spot_x s / 100) * real (width d)) ((spot_y s / 100) * real (height d))
                  (0.12 * real (min (width d) (height d)))
                  [(0, rgba 255 0 0 (max 0.3 (min 0.9 (spot_intensity s)))),
                   (0.4, rgba 255 165 0 (max 0.3 (min 0.9 (spot_intensity s)) * 0.8)),
                   (0.7, rgba 255 255 0 (max 0.3 (min 0.9 (spot_intensity s)) * 0.5)),
                   (1, rgba 255 255 255 0)]),
                [Arc ((spot_x s / 100) * real (width d)) ((spot_y s / 100) * real (height d))
                     (0.12 * real (min (width d) (height d))) 0 (2 * pi)]))
       (sort_key spot_id hs)"
  by (simp add: drawn_repainted_heatmap fills_map_Fill heatmap_state_def Let_def mult.commute)

lemma anchor_points_repainted_heatmap:
  "anchor_points (drawn (repainted c d hs Heatmap)) =
     concat (map (\<lambda>s. replicate 3
       ((spot_x s / 100) * real (width d), (spot_y s / 100) * real (height d)))
       (sort_key spot_id hs))"
  by (simp add: drawn_repainted_heatmap anchor_points_map_Fill heatmap_state_def Let_def
        numeral_3_eq_3)

lemma anchor_points_repainted_fogmap:
  "hs \<noteq> [] \<Longrightarrow> anchor_points (drawn (repainted c d hs Fogmap)) =
     concat (map (\<lambda>s. replicate 3
       ((spot_x s / 100) * real (width d), (spot_y s / 100) * real (height d)))
       (sort_key spot_id hs))"
  by (simp add: drawn_repainted_fogmap anchor_points_map_Fill anchor_points_simps
        fogmap_state_def Let_def numeral_3_eq_3)

lemma anchor_polyline:
  "map anchor (polyline W H hs) =
     map (\<lambda>s. ((spot_x s / 100) * real W, (spot_y s / 100) * real H)) hs"
  by (cases hs) (simp_all add: polyline_def comp_def)

lemma set_concat_replicate:
  "0 < n \<Longrightarrow> set (concat (map (\<lambda>s. replicate n (f s)) xs)) = f ` set xs"
  by (induction xs) auto

lemma set_concat_pair:
  "set (concat (map (\<lambda>s. [f s, f s]) xs)) = f ` set xs"
  by (induction xs) auto

lemma set_anchor_points_repainted:
  assumes "hs \<noteq> []"
  shows "set (anchor_points (drawn (repainted c d hs mode))) =
     (\<lambda>s. ((spot_x s / 100) * real (width d), (spot_y s / 100) * real (height d))) ` set hs"
proof (cases mode)
  case Heatmap
  show ?thesis
    unfolding Heatmap anchor_points_repainted_heatmap
    by (subst set_concat_replicate) simp_all
next
  case Fogmap
  show ?thesis
    unfolding Fogmap anchor_points_repainted_fogmap [OF assms]
    by (subst set_concat_replicate) simp_all
next
  case Path
  show ?thesis
    unfolding Path anchor_points_repainted_path [OF assms] anchor_polyline
    by (simp only: set_append set_concat_pair set_map set_sort Un_absorb)
qed

section \<open>Sorting by order\<close>

lemma sort_key_permutation:
  assumes "mset xs = mset ys" and "distinct (map f xs)"
  shows "sort_key f xs = sort_key f ys"
proof -
  have m: "mset (map f xs) = mset (map f ys)"
    using assms(1) by (metis mset_map)
  have dx: "distinct (map f (sort_key f xs))"
    using assms(2) by (metis distinct_map distinct_sort set_sort)
  have dy: "distinct (map f ys)"
    using m assms(2) by (metis mset_eq_imp_distinct_iff)
  have dy': "distinct (map f (sort_key f ys))"
    using dy by (metis distinct_map distinct_sort set_sort)
  have s: "set xs = set ys"
    using assms(1) by (metis mset_eq_setD)
  have keys: "map f (sort_key f xs) = map f (sort_key f ys)"
    by (rule sorted_distinct_set_unique) (simp_all add: dx dy' s)
  have inj: "inj_on f (set (sort_key f xs) \<union> set (sort_key f ys))"
    using assms(2) s by (simp add: distinct_map)
  show ?thesis
    using keys inj by (rule map_inj_on)
qed

lemma sort_key_strict:
  "distinct (map f xs) \<Longrightarrow> sorted_wrt (<) (map f (sort_key f xs))"
  by (metis distinct_map distinct_sort set_sort sorted_sort_key strict_sorted_iff)

lemma segments_from_lines:
  "segments_from (Some p) (map (\<lambda>q. LineTo (fst q) (snd q)) qs) = zip (p # qs) qs"
  by (induction qs arbitrary: p) simp_all

lemma segments_polyline:
  "segments (polyline W H hs) =
     zip (map (\<lambda>s. ((spot_x s / 100) * real W, (spot_y s / 100) * real H)) hs)
         (tl (map (\<lambda>s. ((spot_x s / 100) * real W, (spot_y s / 100) * real H)) hs))"
proof (cases hs)
  case Nil
  then show ?thesis by (simp add: segments_def polyline_def)
next
  case (Cons s ss)
  have "map (\<lambda>s. LineTo ((spot_x s / 100) * real W) ((spot_y s / 100) * real H)) ss =
      map (\<lambda>q. LineTo (fst q) (snd q))
        (map (\<lambda>s. ((spot_x s / 100) * real W, (spot_y s / 100) * real H)) ss)"
    by simp
  then show ?thesis
    by (simp only: Cons segments_def polyline_def list.case segments_from.simps
          segments_from_lines list.map list.sel)
qed

lemma sorted_head_is_one:
  assumes "sorted_wrt (<) (map f ss)" and "ss \<noteq> []" and "Min (set (map f ss)) = (1::int)"
  shows "map (\<lambda>s. f s = 1) ss = True # replicate (length ss - 1) False"
proof -
  obtain a rest where ss: "ss = a # rest"
    using assms(2) by (cases ss) auto
  have lt: "\<forall>s \<in> set rest. f a < f s"
    using assms(1) by (simp add: ss)
  have "Min (set (map f ss)) = f a"
    by (rule Min_eqI) (use lt in \<open>auto simp: ss less_imp_le\<close>)
  then have a: "f a = 1"
    using assms(3) by simp
  have "map (\<lambda>s. f s = 1) rest = replicate (length rest) False"
    using lt a by (induction rest) auto
  then show ?thesis
    by (simp add: ss a)
qed

section \<open>The compositing formulas for screen and destination-out commute\<close>

lemma repainted_sorted:
  assumes "sort_key spot_id hs' = sort_key spot_id hs"
  shows "repainted c d hs' mode = repainted c d hs mode"
proof -
  have "length hs' = length hs"
    using assms by (metis length_sort)
  then have e: "(hs' = []) = (hs = [])"
    by auto
  show ?thesis
    unfolding repainted_def Let_def assms e by (rule refl)
qed



lemma composites_repainted_heatmap:
  "composites (drawn (repainted c d hs Heatmap)) = replicate (length hs) screen"
  by (simp add: drawn_repainted_heatmap composites_map_Fill heatmap_state_def Let_def
        map_replicate_const)

lemma composites_repainted_fogmap:
  "hs \<noteq> [] \<Longrightarrow> composites (drawn (repainted c d hs Fogmap)) =
     source_over # replicate (length hs) destination_out"
  by (simp add: drawn_repainted_fogmap composites_map_Fill composites_simps fogmap_state_def
        Let_def map_replicate_const default_context_def)

lemma render_effect_sorted_copy:
  assumes "canvasRef w = Some c" and "supports2d c" and "heap w r \<noteq> []"
  shows "heap (render_effect w (Some d) (Some r) mode) (next_ref w) = sort_key spot_id (heap w r)"
  using assms
  by (simp add: render_effect_def spread_def array_sort_by_id_def Let_def)

lemma fills_repainted_fogmap:
  "hs \<noteq> [] \<Longrightarrow> fills (drawn (repainted c d hs Fogmap)) =
     map (\<lambda>s. (Gradient (RadialGradient
                  ((spot_x s / 100) * real (width d)) ((spot_y s / 100) * real (height d)) 0
                  ((spot_x s / 100) * real (width d)) ((spot_y s / 100) * real (height d))
                  (0.14 * real (min (width d) (height d)))
                  [(0, rgba 0 0 0 1), (0.5, rgba 0 0 0 0.5), (1, rgba 0 0 0 0)]),
                [Arc ((spot_x s / 100) * real (width d)) ((spot_y s / 100) * real (height d))
                     (0.14 * real (min (width d) (height d))) 0 (2 * pi)]))
       (sort_key spot_id hs)"
  by (simp add: drawn_repainted_fogmap fills_simps fills_map_Fill fogmap_state_def Let_def
        mult.commute)


section \<open>Results\<close>

text \<open>
  C1. The claim: for an empty attention set and resolved metrics, heatmap and path mode
  leave no non-transparent pixel, and fogmap mode leaves the surface uniformly near-opaque
  (about 92 percent) with no transparent pixel. The effect returns right after clearing
  the canvas when the list is empty, before any mode is looked at, so the fog is not
  painted either: on a 500 by 500 surface in fogmap mode no operation is executed and the
  pixel (250, 250) is transparent, even for a rasterizer that deposits the fog colour
  everywhere.
\<close>

theorem fogmap_empty_set_not_fogged:
  "surface (render_effect (world_of []) (Some \<lparr>width = 500, height = 500\<rparr>) (Some 0) Fogmap) = []
   \<and> pixels (\<lambda>d p. (15 / 255 * 0.92, 23 / 255 * 0.92, 42 / 255 * 0.92, 0.92))
        (surface (render_effect (world_of []) (Some \<lparr>width = 500, height = 500\<rparr>) (Some 0) Fogmap))
        (250, 250) = (0, 0, 0, 0)"
  by (simp add: surface_render_effect [of _ new_canvas] example_inputs drawn_repainted_empty
       pixels_Nil transparent_def)

text \<open>
  C1, amended: for an empty attention set (an empty array or null) and resolved metrics,
  rendering in any of the three modes, fogmap included, executes no drawing operation
  after the clear, and every pixel of the surface is transparent, whatever the rasterizer
  deposits for an operation.
\<close>

theorem empty_set_leaves_surface_transparent:
  assumes "canvasRef w = Some c" and "supports2d c"
    and "(case hotspots of None \<Rightarrow> [] | Some r \<Rightarrow> heap w r) = []"
  shows "surface (render_effect w (Some d) hotspots mode) = []
    \<and> pixels src (surface (render_effect w (Some d) hotspots mode)) p = (0, 0, 0, 0)"
  using assms(3)
  by (simp add: surface_render_effect [OF assms(1,2)] drawn_repainted_empty pixels_Nil transparent_def)

theorem empty_set_leaves_surface_transparent_witness:
  "surface (render_effect (world_of []) (Some \<lparr>width = 500, height = 500\<rparr>) (Some 0) Heatmap) = []
   \<and> pixels (\<lambda>d p. (1, 0, 0, 1))
        (surface (render_effect (world_of []) (Some \<lparr>width = 500, height = 500\<rparr>) (Some 0) Heatmap))
        (250, 250) = (0, 0, 0, 0)"
proof -
  have c: "canvasRef (world_of []) = Some new_canvas"
    by (simp add: world_of_def)
  have s: "supports2d new_canvas"
    by (simp add: new_canvas_def)
  have e: "(case Some 0 of None \<Rightarrow> [] | Some r \<Rightarrow> heap (world_of []) r) = []"
    by (simp add: world_of_def)
  show ?thesis
    by (rule empty_set_leaves_surface_transparent [OF c s e])
qed

text \<open>
  C2. The claim: whenever the resolver stores dimensions, on the load path or on the
  path that inspects an already decoded image, both are positive. The load handler tests
  both; the inspection of a decoded image tests the width only. An image that is complete
  with natural width 100 and natural height 0 is stored as 100 by 0 by the second path,
  and discarded by the first; the render effect then sizes the canvas 100 by 0 and draws
  the fog and the hole of a point on it.
\<close>

theorem cachedImageEffect_stores_zero_height:
  "cachedImageEffect (Some \<lparr>complete = True, naturalWidth = 100, naturalHeight = 0\<rparr>) None
     = Some \<lparr>width = 100, height = 0\<rparr>
   \<and> onImageLoad \<lparr>complete = True, naturalWidth = 100, naturalHeight = 0\<rparr> None = None
   \<and> map_option (\<lambda>c. (canvas_width c, canvas_height c))
       (canvasRef (render_effect (world_of [hotspot 1 50 50 0.5])
          (cachedImageEffect (Some \<lparr>complete = True, naturalWidth = 100, naturalHeight = 0\<rparr>) None)
          (Some 0) Fogmap)) = Some (100, 0)
   \<and> length (surface (render_effect (world_of [hotspot 1 50 50 0.5])
          (cachedImageEffect (Some \<lparr>complete = True, naturalWidth = 100, naturalHeight = 0\<rparr>) None)
          (Some 0) Fogmap)) = 2"
  by (simp add: cachedImageEffect_def onImageLoad_def world_of_def new_canvas_def
        surface_render_effect [of _ new_canvas] render_effect_canvas [of _ new_canvas]
        repainted_size drawn_repainted_fogmap)

text \<open>
  C3. The claim: in path mode exactly the point of minimum order is drawn with inverted
  colours, also when the orders do not start at 1. The code tests \<^verbatim>\<open>spot.id === 1\<close>:
  with the orders 2 and 5 on a 1000 by 1000 surface both markers are white with a
  coloured number, the one of minimum order included.
\<close>

theorem path_minimum_order_not_inverted:
  "map fst (fills (surface (render_effect (world_of [hotspot 5 90 90 0.2, hotspot 2 10 10 0.9])
      (Some \<lparr>width = 1000, height = 1000\<rparr>) (Some 0) Path)))
     = [Colour (rgba 255 255 255 1), Colour (rgba 255 255 255 1)]
   \<and> map (\<lambda>(st, n, x, y). (st, n)) (texts (surface (render_effect
      (world_of [hotspot 5 90 90 0.2, hotspot 2 10 10 0.9])
      (Some \<lparr>width = 1000, height = 1000\<rparr>) (Some 0) Path)))
     = [(Colour (rgba 236 72 153 1), 2), (Colour (rgba 236 72 153 1), 5)]"
  by (simp add: surface_render_effect [of _ new_canvas] example_inputs
       fills_repainted_path texts_repainted_path)

text \<open>
  C3, amended: in path mode, with markers and numbers taken in ascending order, a point
  is drawn with inverted colours (coloured fill, white number) exactly when its order
  equals 1, and with the standard style (white fill, coloured number) otherwise. When the
  orders are unique and their minimum is 1, the first marker is the only inverted one.
\<close>

theorem path_marker_inverted_iff_order_one:
  assumes "canvasRef w = Some c" and "supports2d c"
  shows "map fst (fills (surface (render_effect w (Some d) (Some r) Path))) =
       map (\<lambda>s. if spot_id s = 1 then Colour (rgba 236 72 153 1) else Colour (rgba 255 255 255 1))
         (sort_key spot_id (heap w r))
     \<and> map (\<lambda>(st, n, x, y). (st, n)) (texts (surface (render_effect w (Some d) (Some r) Path))) =
       map (\<lambda>s. (if spot_id s = 1 then Colour (rgba 255 255 255 1) else Colour (rgba 236 72 153 1),
                 spot_id s))
         (sort_key spot_id (heap w r))
     \<and> (heap w r \<noteq> [] \<and> distinct (map spot_id (heap w r))
          \<and> Min (set (map spot_id (heap w r))) = 1 \<longrightarrow>
        map fst (fills (surface (render_effect w (Some d) (Some r) Path))) =
          Colour (rgba 236 72 153 1) # replicate (length (heap w r) - 1) (Colour (rgba 255 255 255 1)))"
proof -
  let ?S = "surface (render_effect w (Some d) (Some r) Path)"
  let ?ss = "sort_key spot_id (heap w r)"
  have S: "?S = drawn (repainted c d (heap w r) Path)"
    by (simp add: surface_render_effect [OF assms])
  have f: "map fst (fills ?S) =
      map (\<lambda>s. if spot_id s = 1 then Colour (rgba 236 72 153 1) else Colour (rgba 255 255 255 1)) ?ss"
    by (simp add: S fills_repainted_path comp_def)
  have t: "map (\<lambda>(st, n, x, y). (st, n)) (texts ?S) =
      map (\<lambda>s. (if spot_id s = 1 then Colour (rgba 255 255 255 1) else Colour (rgba 236 72 153 1),
                spot_id s)) ?ss"
    by (simp add: S texts_repainted_path comp_def)
  have m: "map fst (fills ?S) =
      Colour (rgba 236 72 153 1) # replicate (length (heap w r) - 1) (Colour (rgba 255 255 255 1))"
    if ne: "heap w r \<noteq> []" and di: "distinct (map spot_id (heap w r))"
      and mi: "Min (set (map spot_id (heap w r))) = 1"
  proof -
    have "map (\<lambda>s. spot_id s = 1) ?ss = True # replicate (length ?ss - 1) False"
    proof (rule sorted_head_is_one)
      show "sorted_wrt (<) (map spot_id ?ss)"
        using di by (rule sort_key_strict)
      show "?ss \<noteq> []"
        using ne by (metis length_sort list.size(3) length_0_conv)
      show "Min (set (map spot_id ?ss)) = 1"
        using mi by simp
    qed
    then have "map (\<lambda>b. if b then Colour (rgba 236 72 153 1) else Colour (rgba 255 255 255 1))
          (map (\<lambda>s. spot_id s = 1) ?ss) =
        Colour (rgba 236 72 153 1) # replicate (length (heap w r) - 1) (Colour (rgba 255 255 255 1))"
      by simp
    then show ?thesis
      by (simp add: f comp_def)
  qed
  show ?thesis
    using f t m by blast
qed

theorem path_marker_inverted_iff_order_one_witness:
  "map fst (fills (surface (render_effect (world_of [hotspot 7 90 90 0.2, hotspot 1 10 10 0.9])
      (Some \<lparr>width = 1000, height = 1000\<rparr>) (Some 0) Path)))
     = [Colour (rgba 236 72 153 1), Colour (rgba 255 255 255 1)]
   \<and> map (\<lambda>(st, n, x, y). (st, n)) (texts (surface (render_effect
      (world_of [hotspot 7 90 90 0.2, hotspot 1 10 10 0.9])
      (Some \<lparr>width = 1000, height = 1000\<rparr>) (Some 0) Path)))
     = [(Colour (rgba 255 255 255 1), 1), (Colour (rgba 236 72 153 1), 7)]"
proof -
  let ?w = "world_of [hotspot 7 90 90 0.2, hotspot 1 10 10 0.9]"
  have c: "canvasRef ?w = Some new_canvas"
    by (simp add: world_of_def)
  have s: "supports2d new_canvas"
    by (simp add: new_canvas_def)
  have h: "heap ?w 0 \<noteq> [] \<and> distinct (map spot_id (heap ?w 0)) \<and> Min (set (map spot_id (heap ?w 0))) = 1"
    by (simp add: world_of_def hotspot_def)
  show ?thesis
    using path_marker_inverted_iff_order_one [OF c s, of "\<lparr>width = 1000, height = 1000\<rparr>" 0] h
    by (simp add: world_of_def hotspot_def)
qed

text \<open>
  C4. In path mode, for a list of N points (N at least 1) with unique orders, the only
  dashed stroke is one polyline whose straight segments join the pixel positions of
  consecutive points of the list sorted by order: N - 1 segments, in strictly ascending
  order, the last point not joined back to the first. A canvas that is given any
  permutation of the list shows the same operations.
\<close>

theorem path_polyline_segments:
  assumes "canvasRef w = Some c" and "supports2d c"
    and "heap w r \<noteq> []" and "distinct (map spot_id (heap w r))"
    and "canvasRef w' = Some c'" and "supports2d c'"
    and "mset (heap w' r') = mset (heap w r)"
  shows "map (\<lambda>(st, lw, dash, p). segments p)
           (filter (\<lambda>(st, lw, dash, p). dash \<noteq> [])
              (strokes (surface (render_effect w (Some d) (Some r) Path)))) =
         [zip (map (\<lambda>s. ((spot_x s / 100) * real (width d), (spot_y s / 100) * real (height d)))
                 (sort_key spot_id (heap w r)))
              (tl (map (\<lambda>s. ((spot_x s / 100) * real (width d), (spot_y s / 100) * real (height d)))
                 (sort_key spot_id (heap w r))))]
     \<and> length (zip (map (\<lambda>s. ((spot_x s / 100) * real (width d), (spot_y s / 100) * real (height d)))
                 (sort_key spot_id (heap w r)))
              (tl (map (\<lambda>s. ((spot_x s / 100) * real (width d), (spot_y s / 100) * real (height d)))
                 (sort_key spot_id (heap w r))))) = length (heap w r) - 1
     \<and> sorted_wrt (<) (map spot_id (sort_key spot_id (heap w r)))
     \<and> surface (render_effect w' (Some d) (Some r') Path) =
         surface (render_effect w (Some d) (Some r) Path)"
proof -
  let ?ss = "sort_key spot_id (heap w r)"
  let ?pts = "map (\<lambda>s. ((spot_x s / 100) * real (width d), (spot_y s / 100) * real (height d))) ?ss"
  have S: "surface (render_effect w (Some d) (Some r) Path) = drawn (repainted c d (heap w r) Path)"
    by (simp add: surface_render_effect [OF assms(1,2)])
  have S': "surface (render_effect w' (Some d) (Some r') Path) = drawn (repainted c' d (heap w' r') Path)"
    by (simp add: surface_render_effect [OF assms(5,6)])
  have dashed: "filter (\<lambda>(st, lw, dash, p). dash \<noteq> [])
      (strokes (drawn (repainted c d (heap w r) Path))) =
      [(Colour (rgba 236 72 153 0.8), max 2 (real (width d) * 0.003), [15, 10],
        polyline (width d) (height d) ?ss)]"
    unfolding strokes_repainted_path [OF assms(3)]
    by (simp add: filter_empty_conv)
  have a: "map (\<lambda>(st, lw, dash, p). segments p)
           (filter (\<lambda>(st, lw, dash, p). dash \<noteq> [])
              (strokes (surface (render_effect w (Some d) (Some r) Path)))) = [zip ?pts (tl ?pts)]"
    unfolding S dashed by (simp add: segments_polyline)
  have b: "length (zip ?pts (tl ?pts)) = length (heap w r) - 1"
    by simp
  have c: "sorted_wrt (<) (map spot_id ?ss)"
    using assms(4) by (rule sort_key_strict)
  have "sort_key spot_id (heap w' r') = ?ss"
    by (rule sort_key_permutation [symmetric]) (use assms(4,7) in simp_all)
  moreover have "heap w' r' \<noteq> []"
    using assms(3,7) by (metis mset_zero_iff)
  moreover have "repainted c' d (heap w' r') Path = repainted c d (heap w' r') Path"
    by (rule repainted_cong) (simp add: assms(2,6))
  ultimately have "repainted c' d (heap w' r') Path = repainted c d (heap w r) Path"
    using assms(3) by (simp add: repainted_def Let_def)
  then have e: "surface (render_effect w' (Some d) (Some r') Path) =
      surface (render_effect w (Some d) (Some r) Path)"
    by (simp add: S S')
  show ?thesis
    using a b c e by blast
qed

theorem path_polyline_segments_witness:
  "map (\<lambda>(st, lw, dash, p). segments p)
     (filter (\<lambda>(st, lw, dash, p). dash \<noteq> [])
        (strokes (surface (render_effect
           (world_of [hotspot 3 50 20 0.5, hotspot 1 10 10 0.9, hotspot 2 90 90 0.2])
           (Some \<lparr>width = 1000, height = 1000\<rparr>) (Some 0) Path)))) =
     [[((100, 100), (900, 900)), ((900, 900), (500, 200))]]
   \<and> surface (render_effect
         (world_of [hotspot 2 90 90 0.2, hotspot 3 50 20 0.5, hotspot 1 10 10 0.9])
         (Some \<lparr>width = 1000, height = 1000\<rparr>) (Some 0) Path) =
     surface (render_effect
         (world_of [hotspot 3 50 20 0.5, hotspot 1 10 10 0.9, hotspot 2 90 90 0.2])
         (Some \<lparr>width = 1000, height = 1000\<rparr>) (Some 0) Path)"
proof -
  let ?w = "world_of [hotspot 3 50 20 0.5, hotspot 1 10 10 0.9, hotspot 2 90 90 0.2]"
  let ?w' = "world_of [hotspot 2 90 90 0.2, hotspot 3 50 20 0.5, hotspot 1 10 10 0.9]"
  have c: "canvasRef ?w = Some new_canvas" "canvasRef ?w' = Some new_canvas"
    by (simp_all add: world_of_def)
  have s: "supports2d new_canvas"
    by (simp add: new_canvas_def)
  have n: "heap ?w 0 \<noteq> []"
    by (simp add: world_of_def)
  have d: "distinct (map spot_id (heap ?w 0))"
    by (simp add: world_of_def hotspot_def)
  have m: "mset (heap ?w' 0) = mset (heap ?w 0)"
    by (simp add: world_of_def)
  show ?thesis
    using path_polyline_segments [OF c(1) s n d c(2) s m, of "\<lparr>width = 1000, height = 1000\<rparr>"]
    by (simp add: world_of_def hotspot_def)
qed

text \<open>
  C5. For every point and every resolved size, each operation of each mode is placed at
  the position \<open>(x / 100 * width, y / 100 * height)\<close> of its own point, taken in
  ascending order: in heatmap and fogmap mode the k-th fill has its arc centre and both
  centres of its gradient there; in path mode the vertices of the polyline are these
  positions in sequence, the k-th marker is filled and outlined around the k-th position,
  and the number of the k-th point is written 2 pixels below it. No path or gradient is
  placed anywhere else. In particular a point at (0, 0) is placed at the origin, a point
  at (100, 100) at (width, height), and a point at (50, 50) at (width / 2, height / 2).
\<close>

theorem pixel_position_of_point:
  assumes "canvasRef w = Some c" and "supports2d c" and "heap w r \<noteq> []"
  shows "set (anchor_points (surface (render_effect w (Some d) (Some r) mode))) =
           (\<lambda>s. ((spot_x s / 100) * real (width d), (spot_y s / 100) * real (height d))) `
             set (heap w r)
     \<and> map (\<lambda>(st, n, x, y). (x, y)) (texts (surface (render_effect w (Some d) (Some r) Path))) =
         map (\<lambda>s. ((spot_x s / 100) * real (width d), (spot_y s / 100) * real (height d) + 2))
           (sort_key spot_id (heap w r))
     \<and> (\<forall>s \<in> set (heap w r).
          (spot_x s = 0 \<and> spot_y s = 0 \<longrightarrow>
             (0, 0) \<in> set (anchor_points (surface (render_effect w (Some d) (Some r) mode)))) \<and>
          (spot_x s = 100 \<and> spot_y s = 100 \<longrightarrow>
             (real (width d), real (height d))
               \<in> set (anchor_points (surface (render_effect w (Some d) (Some r) mode)))) \<and>
          (spot_x s = 50 \<and> spot_y s = 50 \<longrightarrow>
             (real (width d) / 2, real (height d) / 2)
               \<in> set (anchor_points (surface (render_effect w (Some d) (Some r) mode)))))
     \<and> map (\<lambda>(st, p). (gradient_centres st, map anchor p))
           (fills (surface (render_effect w (Some d) (Some r) Heatmap))) =
         map (\<lambda>s. ([((spot_x s / 100) * real (width d), (spot_y s / 100) * real (height d)),
                     ((spot_x s / 100) * real (width d), (spot_y s / 100) * real (height d))],
                    [((spot_x s / 100) * real (width d), (spot_y s / 100) * real (height d))]))
           (sort_key spot_id (heap w r))
     \<and> map (\<lambda>(st, p). (gradient_centres st, map anchor p))
           (fills (surface (render_effect w (Some d) (Some r) Fogmap))) =
         map (\<lambda>s. ([((spot_x s / 100) * real (width d), (spot_y s / 100) * real (height d)),
                     ((spot_x s / 100) * real (width d), (spot_y s / 100) * real (height d))],
                    [((spot_x s / 100) * real (width d), (spot_y s / 100) * real (height d))]))
           (sort_key spot_id (heap w r))
     \<and> map (\<lambda>(st, lw, dash, p). map anchor p)
           (strokes (surface (render_effect w (Some d) (Some r) Path))) =
         map (\<lambda>s. ((spot_x s / 100) * real (width d), (spot_y s / 100) * real (height d)))
           (sort_key spot_id (heap w r)) #
         map (\<lambda>s. [((spot_x s / 100) * real (width d), (spot_y s / 100) * real (height d))])
           (sort_key spot_id (heap w r))
     \<and> map (\<lambda>(st, p). map anchor p)
           (fills (surface (render_effect w (Some d) (Some r) Path))) =
         map (\<lambda>s. [((spot_x s / 100) * real (width d), (spot_y s / 100) * real (height d))])
           (sort_key spot_id (heap w r))
     \<and> map (\<lambda>(st, n, x, y). (n, x, y))
           (texts (surface (render_effect w (Some d) (Some r) Path))) =
         map (\<lambda>s. (spot_id s,
                    (spot_x s / 100) * real (width d), (spot_y s / 100) * real (height d) + 2))
           (sort_key spot_id (heap w r))"
proof -
  let ?pos = "\<lambda>s. ((spot_x s / 100) * real (width d), (spot_y s / 100) * real (height d))"
  have S: "\<And>mode. surface (render_effect w (Some d) (Some r) mode) = drawn (repainted c d (heap w r) mode)"
    by (simp add: surface_render_effect [OF assms(1,2)])
  have a: "set (anchor_points (surface (render_effect w (Some d) (Some r) mode))) = ?pos ` set (heap w r)"
    unfolding S by (rule set_anchor_points_repainted [OF assms(3)])
  have t: "map (\<lambda>(st, n, x, y). (x, y)) (texts (surface (render_effect w (Some d) (Some r) Path))) =
      map (\<lambda>s. ((spot_x s / 100) * real (width d), (spot_y s / 100) * real (height d) + 2))
        (sort_key spot_id (heap w r))"
    unfolding S by (simp add: texts_repainted_path comp_def)
  have k: "?pos s \<in> set (anchor_points (surface (render_effect w (Some d) (Some r) mode)))"
    if "s \<in> set (heap w r)" for s
    unfolding a using that by (rule imageI)
  have k0: "(0, 0) \<in> set (anchor_points (surface (render_effect w (Some d) (Some r) mode)))"
    if "s \<in> set (heap w r)" and "spot_x s = 0 \<and> spot_y s = 0" for s
    using k [OF that(1)] that(2) by simp
  have k100: "(real (width d), real (height d))
      \<in> set (anchor_points (surface (render_effect w (Some d) (Some r) mode)))"
    if "s \<in> set (heap w r)" and "spot_x s = 100 \<and> spot_y s = 100" for s
    using k [OF that(1)] that(2) by simp
  have k50: "(real (width d) / 2, real (height d) / 2)
      \<in> set (anchor_points (surface (render_effect w (Some d) (Some r) mode)))"
    if "s \<in> set (heap w r)" and "spot_x s = 50 \<and> spot_y s = 50" for s
    using k [OF that(1)] that(2) by simp
  have fh: "map (\<lambda>(st, p). (gradient_centres st, map anchor p))
        (fills (surface (render_effect w (Some d) (Some r) Heatmap))) =
      map (\<lambda>s. ([?pos s, ?pos s], [?pos s])) (sort_key spot_id (heap w r))"
    unfolding S by (simp add: fills_repainted_heatmap comp_def)
  have ff: "map (\<lambda>(st, p). (gradient_centres st, map anchor p))
        (fills (surface (render_effect w (Some d) (Some r) Fogmap))) =
      map (\<lambda>s. ([?pos s, ?pos s], [?pos s])) (sort_key spot_id (heap w r))"
    unfolding S by (simp add: fills_repainted_fogmap [OF assms(3)] comp_def)
  have ps: "map (\<lambda>(st, lw, dash, p). map anchor p)
        (strokes (surface (render_effect w (Some d) (Some r) Path))) =
      map ?pos (sort_key spot_id (heap w r)) # map (\<lambda>s. [?pos s]) (sort_key spot_id (heap w r))"
    unfolding S by (simp add: strokes_repainted_path [OF assms(3)] anchor_polyline comp_def)
  have pf: "map (\<lambda>(st, p). map anchor p)
        (fills (surface (render_effect w (Some d) (Some r) Path))) =
      map (\<lambda>s. [?pos s]) (sort_key spot_id (heap w r))"
    unfolding S by (simp add: fills_repainted_path comp_def)
  have pt: "map (\<lambda>(st, n, x, y). (n, x, y))
        (texts (surface (render_effect w (Some d) (Some r) Path))) =
      map (\<lambda>s. (spot_id s, (spot_x s / 100) * real (width d), (spot_y s / 100) * real (height d) + 2))
        (sort_key spot_id (heap w r))"
    unfolding S by (simp add: texts_repainted_path comp_def)
  have first: "set (anchor_points (surface (render_effect w (Some d) (Some r) mode))) =
           ?pos ` set (heap w r)
     \<and> map (\<lambda>(st, n, x, y). (x, y)) (texts (surface (render_effect w (Some d) (Some r) Path))) =
         map (\<lambda>s. ((spot_x s / 100) * real (width d), (spot_y s / 100) * real (height d) + 2))
           (sort_key spot_id (heap w r))
     \<and> (\<forall>s \<in> set (heap w r).
          (spot_x s = 0 \<and> spot_y s = 0 \<longrightarrow>
             (0, 0) \<in> set (anchor_points (surface (render_effect w (Some d) (Some r) mode)))) \<and>
          (spot_x s = 100 \<and> spot_y s = 100 \<longrightarrow>
             (real (width d), real (height d))
               \<in> set (anchor_points (surface (render_effect w (Some d) (Some r) mode)))) \<and>
          (spot_x s = 50 \<and> spot_y s = 50 \<longrightarrow>
             (real (width d) / 2, real (height d) / 2)
               \<in> set (anchor_points (surface (render_effect w (Some d) (Some r) mode)))))"
    using a t k0 k100 k50 by blast
  show ?thesis
    using first fh ff ps pf pt by (intro conjI) blast+
qed

theorem pixel_position_of_point_witness:
  "set (anchor_points (surface (render_effect
       (world_of [hotspot 3 100 100 0.5, hotspot 1 0 0 0.9, hotspot 2 50 50 0.2])
       (Some \<lparr>width = 800, height = 600\<rparr>) (Some 0) Fogmap))) =
     {(800, 600), (0, 0), (400, 300)}
   \<and> map (\<lambda>(st, n, x, y). (x, y)) (texts (surface (render_effect
       (world_of [hotspot 3 100 100 0.5, hotspot 1 0 0 0.9, hotspot 2 50 50 0.2])
       (Some \<lparr>width = 800, height = 600\<rparr>) (Some 0) Path))) =
     [(0, 2), (400, 302), (800, 602)]
   \<and> map (\<lambda>(st, lw, dash, p). map anchor p) (strokes (surface (render_effect
       (world_of [hotspot 3 100 100 0.5, hotspot 1 0 0 0.9, hotspot 2 50 50 0.2])
       (Some \<lparr>width = 800, height = 600\<rparr>) (Some 0) Path))) =
     [[(0, 0), (400, 300), (800, 600)], [(0, 0)], [(400, 300)], [(800, 600)]]
   \<and> map (\<lambda>(st, p). (gradient_centres st, map anchor p)) (fills (surface (render_effect
       (world_of [hotspot 3 100 100 0.5, hotspot 1 0 0 0.9, hotspot 2 50 50 0.2])
       (Some \<lparr>width = 800, height = 600\<rparr>) (Some 0) Heatmap))) =
     [([(0, 0), (0, 0)], [(0, 0)]), ([(400, 300), (400, 300)], [(400, 300)]),
      ([(800, 600), (800, 600)], [(800, 600)])]"
proof -
  let ?w = "world_of [hotspot 3 100 100 0.5, hotspot 1 0 0 0.9, hotspot 2 50 50 0.2]"
  have c: "canvasRef ?w = Some new_canvas"
    by (simp add: world_of_def)
  have s: "supports2d new_canvas"
    by (simp add: new_canvas_def)
  have n: "heap ?w 0 \<noteq> []"
    by (simp add: world_of_def)
  show ?thesis
    using pixel_position_of_point [OF c s n, of "\<lparr>width = 800, height = 600\<rparr>" Fogmap]
    by (simp add: world_of_def hotspot_def)
qed

text \<open>
  C6. In heatmap mode every point is filled as a full circle of radius
  \<open>0.12 * min width height\<close> around its pixel position, with a radial gradient from
  radius 0 to that radius around the same centre, whose stops are red at offset 0 with
  alpha \<open>max 0.3 (min 0.9 intensity)\<close>, orange at 0.4 with 0.8 of that alpha, yellow at
  0.7 with 0.5 of it, and white with alpha 0 at offset 1. The alpha at the centre lies
  between 0.3 and 0.9, the next two are each smaller than the one before, and the last
  is 0.
\<close>

theorem heatmap_falloff:
  assumes "canvasRef w = Some c" and "supports2d c"
  shows "fills (surface (render_effect w (Some d) (Some r) Heatmap)) =
     map (\<lambda>s. (Gradient (RadialGradient
                  ((spot_x s / 100) * real (width d)) ((spot_y s / 100) * real (height d)) 0
                  ((spot_x s / 100) * real (width d)) ((spot_y s / 100) * real (height d))
                  (0.12 * real (min (width d) (height d)))
                  [(0, rgba 255 0 0 (max 0.3 (min 0.9 (spot_intensity s)))),
                   (0.4, rgba 255 165 0 (max 0.3 (min 0.9 (spot_intensity s)) * 0.8)),
                   (0.7, rgba 255 255 0 (max 0.3 (min 0.9 (spot_intensity s)) * 0.5)),
                   (1, rgba 255 255 255 0)]),
                [Arc ((spot_x s / 100) * real (width d)) ((spot_y s / 100) * real (height d))
                     (0.12 * real (min (width d) (height d))) 0 (2 * pi)]))
       (sort_key spot_id (heap w r))
     \<and> list_all (\<lambda>(st, p). case stop_alphas st of
                    [a0, a1, a2, a3] \<Rightarrow> 0.3 \<le> a0 \<and> a0 \<le> 0.9 \<and> a1 < a0 \<and> a2 < a1 \<and> a3 = 0
                  | _ \<Rightarrow> False)
         (fills (surface (render_effect w (Some d) (Some r) Heatmap)))"
proof -
  have S: "surface (render_effect w (Some d) (Some r) Heatmap) = drawn (repainted c d (heap w r) Heatmap)"
    by (simp add: surface_render_effect [OF assms])
  show ?thesis
    unfolding S fills_repainted_heatmap
    by (auto simp add: list_all_iff max_def min_def)
qed

theorem heatmap_falloff_witness:
  "fills (surface (render_effect (world_of [hotspot 2 90 90 0.2, hotspot 1 10 10 1])
       (Some \<lparr>width = 1000, height = 500\<rparr>) (Some 0) Heatmap)) =
     [(Gradient (RadialGradient 100 50 0 100 50 60
         [(0, rgba 255 0 0 0.9), (0.4, rgba 255 165 0 0.72), (0.7, rgba 255 255 0 0.45),
          (1, rgba 255 255 255 0)]),
       [Arc 100 50 60 0 (2 * pi)]),
      (Gradient (RadialGradient 900 450 0 900 450 60
         [(0, rgba 255 0 0 0.3), (0.4, rgba 255 165 0 0.24), (0.7, rgba 255 255 0 0.15),
          (1, rgba 255 255 255 0)]),
       [Arc 900 450 60 0 (2 * pi)])]"
proof -
  let ?w = "world_of [hotspot 2 90 90 0.2, hotspot 1 10 10 1]"
  have c: "canvasRef ?w = Some new_canvas"
    by (simp add: world_of_def)
  have s: "supports2d new_canvas"
    by (simp add: new_canvas_def)
  show ?thesis
    using heatmap_falloff [OF c s, of "\<lparr>width = 1000, height = 500\<rparr>" 0]
    by (simp add: world_of_def hotspot_def)
qed

text \<open>
  C7. The canvas after the render effect is a function of the resolved dimensions, the
  mode and the sorted list of points: two renders with the same dimensions and mode and
  lists that sort to the same sequence leave equal canvases, whatever was drawn on them
  before and whatever their drawing state was. Rendering again, in the same or in
  another mode, leaves exactly the canvas that a first render in that mode leaves, so
  all pixels agree and nothing of the previous mode remains.
\<close>

theorem render_is_function_of_inputs:
  assumes "canvasRef w = Some c" and "supports2d c"
    and "canvasRef w' = Some c'" and "supports2d c'"
    and "sort_key spot_id (heap w' r') = sort_key spot_id (heap w r)"
    and "r < next_ref w"
  shows "canvasRef (render_effect w' (Some d) (Some r') mode) =
         canvasRef (render_effect w (Some d) (Some r) mode)
     \<and> canvasRef (render_effect (render_effect w (Some d) (Some r) mode0) (Some d) (Some r) mode) =
         canvasRef (render_effect w (Some d) (Some r) mode)
     \<and> pixels src (surface (render_effect (render_effect w (Some d) (Some r) mode0)
           (Some d) (Some r) mode)) =
         pixels src (surface (render_effect w (Some d) (Some r) mode))"
proof -
  let ?w1 = "render_effect w (Some d) (Some r) mode0"
  have R: "canvasRef (render_effect w (Some d) (Some r) mode) = Some (repainted c d (heap w r) mode)"
    by (simp add: render_effect_canvas [OF assms(1,2)])
  have "canvasRef (render_effect w' (Some d) (Some r') mode) = Some (repainted c' d (heap w' r') mode)"
    by (simp add: render_effect_canvas [OF assms(3,4)])
  also have "repainted c' d (heap w' r') mode = repainted c d (heap w' r') mode"
    by (rule repainted_cong) (simp add: assms(2,4))
  also have "\<dots> = repainted c d (heap w r) mode"
    using assms(5) by (rule repainted_sorted)
  finally have a: "canvasRef (render_effect w' (Some d) (Some r') mode) =
      canvasRef (render_effect w (Some d) (Some r) mode)"
    by (simp add: R)
  have c1: "canvasRef ?w1 = Some (repainted c d (heap w r) mode0)"
    by (simp add: render_effect_canvas [OF assms(1,2)])
  have s1: "supports2d (repainted c d (heap w r) mode0)"
    by (simp add: repainted_supports2d assms(2))
  have h1: "heap ?w1 r = heap w r"
    using assms(6) by (rule render_effect_heap)
  have "canvasRef (render_effect ?w1 (Some d) (Some r) mode) =
      Some (repainted (repainted c d (heap w r) mode0) d (heap w r) mode)"
    by (simp add: render_effect_canvas [OF c1 s1] h1)
  also have "repainted (repainted c d (heap w r) mode0) d (heap w r) mode =
      repainted c d (heap w r) mode"
    by (rule repainted_cong) (simp add: repainted_supports2d)
  finally have b: "canvasRef (render_effect ?w1 (Some d) (Some r) mode) =
      canvasRef (render_effect w (Some d) (Some r) mode)"
    by (simp add: R)
  from b have "surface (render_effect ?w1 (Some d) (Some r) mode) =
      surface (render_effect w (Some d) (Some r) mode)"
    by (simp add: surface_def)
  with a b show ?thesis
    by simp
qed

theorem render_is_function_of_inputs_witness:
  "canvasRef (render_effect
       (render_effect (world_of [hotspot 2 90 90 0.2, hotspot 1 10 10 0.9])
          (Some \<lparr>width = 1000, height = 1000\<rparr>) (Some 0) Heatmap)
       (Some \<lparr>width = 1000, height = 1000\<rparr>) (Some 0) Fogmap) =
   canvasRef (render_effect (world_of [hotspot 2 90 90 0.2, hotspot 1 10 10 0.9])
       (Some \<lparr>width = 1000, height = 1000\<rparr>) (Some 0) Fogmap)
   \<and> canvasRef (render_effect (world_of [hotspot 1 10 10 0.9, hotspot 2 90 90 0.2])
       (Some \<lparr>width = 1000, height = 1000\<rparr>) (Some 0) Fogmap) =
   canvasRef (render_effect (world_of [hotspot 2 90 90 0.2, hotspot 1 10 10 0.9])
       (Some \<lparr>width = 1000, height = 1000\<rparr>) (Some 0) Fogmap)"
proof -
  let ?w = "world_of [hotspot 2 90 90 0.2, hotspot 1 10 10 0.9]"
  let ?w' = "world_of [hotspot 1 10 10 0.9, hotspot 2 90 90 0.2]"
  have c: "canvasRef ?w = Some new_canvas" "canvasRef ?w' = Some new_canvas"
    by (simp_all add: world_of_def)
  have s: "supports2d new_canvas"
    by (simp add: new_canvas_def)
  have e: "sort_key spot_id (heap ?w' 0) = sort_key spot_id (heap ?w 0)"
    by (simp add: world_of_def hotspot_def)
  have n: "0 < next_ref ?w"
    by (simp add: world_of_def)
  show ?thesis
    using render_is_function_of_inputs [OF c(1) s c(2) s e n,
        of "\<lparr>width = 1000, height = 1000\<rparr>" Fogmap Heatmap]
    by simp
qed

text \<open>
  C8. After a render in heatmap or fogmap mode the compositing operation of the context
  is \<^verbatim>\<open>source-over\<close>. During a heatmap render every point is filled under
  \<^verbatim>\<open>screen\<close>; during a fogmap render the fog is filled under \<^verbatim>\<open>source-over\<close> and
  every hole under \<^verbatim>\<open>destination-out\<close>.
\<close>

theorem composite_restored:
  assumes "canvasRef w = Some c" and "supports2d c" and "mode \<noteq> Path"
  shows "final_composite (render_effect w (Some d) hotspots mode) = Some source_over
     \<and> composites (surface (render_effect w (Some d) (Some r) Heatmap)) =
         replicate (length (heap w r)) screen
     \<and> (heap w r \<noteq> [] \<longrightarrow>
        composites (surface (render_effect w (Some d) (Some r) Fogmap)) =
          source_over # replicate (length (heap w r)) destination_out)"
proof -
  have a: "final_composite (render_effect w (Some d) hotspots mode) = Some source_over"
    using assms(3)
    by (simp add: final_composite_def render_effect_canvas [OF assms(1,2)] composite_repainted)
  have b: "composites (surface (render_effect w (Some d) (Some r) Heatmap)) =
      replicate (length (heap w r)) screen"
    by (simp add: surface_render_effect [OF assms(1,2)] composites_repainted_heatmap)
  have c: "composites (surface (render_effect w (Some d) (Some r) Fogmap)) =
      source_over # replicate (length (heap w r)) destination_out" if "heap w r \<noteq> []"
    using that by (simp add: surface_render_effect [OF assms(1,2)] composites_repainted_fogmap)
  show ?thesis
    using a b c by blast
qed

theorem composite_restored_witness:
  "final_composite (render_effect (world_of [hotspot 2 90 90 0.2, hotspot 1 10 10 0.9])
       (Some \<lparr>width = 1000, height = 1000\<rparr>) (Some 0) Fogmap) = Some source_over
   \<and> composites (surface (render_effect (world_of [hotspot 2 90 90 0.2, hotspot 1 10 10 0.9])
       (Some \<lparr>width = 1000, height = 1000\<rparr>) (Some 0) Heatmap)) = [screen, screen]
   \<and> composites (surface (render_effect (world_of [hotspot 2 90 90 0.2, hotspot 1 10 10 0.9])
       (Some \<lparr>width = 1000, height = 1000\<rparr>) (Some 0) Fogmap)) =
       [source_over, destination_out, destination_out]"
proof -
  let ?w = "world_of [hotspot 2 90 90 0.2, hotspot 1 10 10 0.9]"
  have c: "canvasRef ?w = Some new_canvas"
    by (simp add: world_of_def)
  have s: "supports2d new_canvas"
    by (simp add: new_canvas_def)
  have m: "Fogmap \<noteq> Path"
    by simp
  have n: "heap ?w 0 \<noteq> []"
    by (simp add: world_of_def)
  show ?thesis
    using composite_restored [OF c s m, of "\<lparr>width = 1000, height = 1000\<rparr>" "Some 0" 0] n
    by (simp add: world_of_def numeral_2_eq_2)
qed

text \<open>
  C9. Rendering leaves the array it is given unchanged, for every input and mode: no
  array that existed before the effect is written. The sort works on a new array, which
  holds the sorted points after a render that draws.
\<close>

theorem input_array_unchanged:
  assumes "r < next_ref w"
  shows "heap (render_effect w dimensions (Some r) mode) r = heap w r
     \<and> (\<forall>a < next_ref w. heap (render_effect w dimensions (Some r) mode) a = heap w a)
     \<and> (\<forall>c d. canvasRef w = Some c \<and> supports2d c \<and> dimensions = Some d \<and> heap w r \<noteq> [] \<longrightarrow>
          heap (render_effect w dimensions (Some r) mode) (next_ref w) = sort_key spot_id (heap w r))"
  using assms by (simp add: render_effect_heap render_effect_sorted_copy)

theorem input_array_unchanged_witness:
  "heap (render_effect (world_of [hotspot 2 90 90 0.2, hotspot 1 10 10 0.9])
       (Some \<lparr>width = 1000, height = 1000\<rparr>) (Some 0) Path) 0 =
     [hotspot 2 90 90 0.2, hotspot 1 10 10 0.9]
   \<and> heap (render_effect (world_of [hotspot 2 90 90 0.2, hotspot 1 10 10 0.9])
       (Some \<lparr>width = 1000, height = 1000\<rparr>) (Some 0) Path) 1 =
     [hotspot 1 10 10 0.9, hotspot 2 90 90 0.2]"
proof -
  let ?w = "world_of [hotspot 2 90 90 0.2, hotspot 1 10 10 0.9]"
  have n: "0 < next_ref ?w"
    by (simp add: world_of_def)
  have c: "canvasRef ?w = Some new_canvas \<and> supports2d new_canvas \<and> heap ?w 0 \<noteq> []"
    by (simp add: world_of_def new_canvas_def)
  have h: "heap ?w 0 = [hotspot 2 90 90 0.2, hotspot 1 10 10 0.9]" "next_ref ?w = 1"
    by (simp_all add: world_of_def)
  have so: "sort_key spot_id [hotspot 2 90 90 0.2, hotspot 1 10 10 0.9] =
      [hotspot 1 10 10 0.9, hotspot 2 90 90 0.2]"
    by (simp add: hotspot_def)
  note t = input_array_unchanged [OF n, of "Some \<lparr>width = 1000, height = 1000\<rparr>" Path]
  have a: "heap (render_effect ?w (Some \<lparr>width = 1000, height = 1000\<rparr>) (Some 0) Path) 0 = heap ?w 0"
    using t by blast
  have b: "heap (render_effect ?w (Some \<lparr>width = 1000, height = 1000\<rparr>) (Some 0) Path) (next_ref ?w) =
      sort_key spot_id (heap ?w 0)"
    using t c by blast
  show ?thesis
    using a b by (simp only: h so simp_thms)
qed




end
